theory Spec2Isabelle
  imports Complex_Main "HOL-Library.Char_ord" "HOL-Library.List_Lexorder"
    "HOL-Library.Product_Lexorder"
begin

section \<open>Data model\<close>

text \<open>
  The pipeline of \<^verbatim>\<open>src/model.py\<close> works on pandas DataFrames. A frame is modelled by its
  columns in order, each a name with the cells of that column; a cell is text (LA codes and
  names) or a number. Python floats are modelled as reals: rounding, NaN and infinities are
  outside the model.
\<close>

datatype cell = Str string | Num real

type_synonym series = "cell list"

type_synonym dataframe = "(string \<times> series) list"

datatype error = KeyError | ValueError | IndexError | TypeError | AttributeError

text \<open>
  Cells are ordered the way a sort of one column orders them: numbers by value, text
  lexicographically by character code. Python refuses to compare text with a number; the
  order below puts numbers first only to be total, and \<open>comparable\<close> is the check that a
  column can be sorted at all.
\<close>

fun cell_key :: "cell \<Rightarrow> bool \<times> real \<times> string" where
  "cell_key (Num r) = (False, r, [])"
| "cell_key (Str s) = (True, 0, s)"

instantiation cell :: linorder
begin

definition less_eq_cell :: "cell \<Rightarrow> cell \<Rightarrow> bool" where
  "less_eq_cell a b \<longleftrightarrow> cell_key a \<le> cell_key b"

definition less_cell :: "cell \<Rightarrow> cell \<Rightarrow> bool" where
  "less_cell a b \<longleftrightarrow> cell_key a < cell_key b"

instance
proof
  fix x y z :: cell
  show "(x < y) = (x \<le> y \<and> \<not> y \<le> x)"
    unfolding less_eq_cell_def less_cell_def by (rule less_le_not_le)
  show "x \<le> x"
    unfolding less_eq_cell_def by simp
  show "x \<le> y \<Longrightarrow> y \<le> z \<Longrightarrow> x \<le> z"
    unfolding less_eq_cell_def by (rule order_trans)
  show "x \<le> y \<Longrightarrow> y \<le> x \<Longrightarrow> x = y"
    unfolding less_eq_cell_def by (cases x; cases y) auto
  show "x \<le> y \<or> y \<le> x"
    unfolding less_eq_cell_def by (rule linear)
qed

end

fun is_str :: "cell \<Rightarrow> bool" where
  "is_str (Str s) = True"
| "is_str (Num r) = False"

definition comparable :: "cell list \<Rightarrow> bool" where
  "comparable cs \<longleftrightarrow> list_all is_str cs \<or> list_all (\<lambda>c. \<not> is_str c) cs"


section \<open>Frame operations\<close>

definition columns :: "dataframe \<Rightarrow> string list" where
  "columns df = map fst df"

text \<open>A frame may hold several columns under one name; \<open>matching df c\<close> are the columns
  named \<open>c\<close>.\<close>

definition matching :: "dataframe \<Rightarrow> string \<Rightarrow> dataframe" where
  "matching df c = filter (\<lambda>(c', s). c' = c) df"

text \<open>\<^verbatim>\<open>df[c]\<close> read as one column: KeyError when no column has the name. When several
  columns have it pandas returns a frame, and each place of the program that reads
  \<^verbatim>\<open>df[c]\<close> as one column then raises (the truth value of a comparison of a series, the
  shape of the scaled array, an index of two dimensions); the model raises at the read.\<close>

definition getitem :: "dataframe \<Rightarrow> string \<Rightarrow> error + series" where
  "getitem df c =
     (case matching df c of
        [] \<Rightarrow> Inl KeyError
      | [(c', s)] \<Rightarrow> Inr s
      | _ \<Rightarrow> Inl ValueError)"

text \<open>\<^verbatim>\<open>df[c] = v\<close>: replaces the content of every column named \<open>c\<close>, or appends the
  column when there is none. Every assignment of the source stores a series computed
  elementwise from a column of the same frame, so pandas' length check cannot fail and is
  not modelled.\<close>

definition setitem :: "dataframe \<Rightarrow> string \<Rightarrow> series \<Rightarrow> dataframe" where
  "setitem df c v =
     (if c \<in> set (columns df)
      then map (\<lambda>(c', s). (c', if c' = c then v else s)) df
      else df @ [(c, v)])"

text \<open>\<^verbatim>\<open>df[[c1, ..., cn]]\<close>: a new frame with the columns of the listed names, in the
  listed order; a name that several columns have selects them all.\<close>

fun select_columns :: "dataframe \<Rightarrow> string list \<Rightarrow> error + dataframe" where
  "select_columns df [] = Inr []"
| "select_columns df (c # cs) =
     (case matching df c of
        [] \<Rightarrow> Inl KeyError
      | m # ms \<Rightarrow> (case select_columns df cs of
                     Inl e \<Rightarrow> Inl e
                   | Inr r \<Rightarrow> Inr (m # ms @ r)))"

text \<open>All columns of a frame have the same number of rows.\<close>

definition nrows :: "dataframe \<Rightarrow> nat" where
  "nrows df = (case df of [] \<Rightarrow> 0 | (c, s) # r \<Rightarrow> length s)"

definition wf_frame :: "dataframe \<Rightarrow> bool" where
  "wf_frame df \<longleftrightarrow> distinct (columns df) \<and> list_all (\<lambda>(c, s). length s = nrows df) df"

text \<open>Reading a column as floats; \<open>e\<close> is the error the caller raises on text.\<close>

fun to_floats :: "error \<Rightarrow> series \<Rightarrow> error + real list" where
  "to_floats e [] = Inr []"
| "to_floats e (Str s # cs) = Inl e"
| "to_floats e (Num r # cs) =
     (case to_floats e cs of Inl e' \<Rightarrow> Inl e' | Inr rs \<Rightarrow> Inr (r # rs))"

fun all_floats :: "error \<Rightarrow> series list \<Rightarrow> error + real list list" where
  "all_floats e [] = Inr []"
| "all_floats e (s # ss) =
     (case to_floats e s of
        Inl e' \<Rightarrow> Inl e'
      | Inr rs \<Rightarrow> (case all_floats e ss of Inl e' \<Rightarrow> Inl e' | Inr rss \<Rightarrow> Inr (rs # rss)))"

section \<open>Output files\<close>

text \<open>The pipeline's effect on the disk is the sequence of files it writes, oldest first:
  the folder, the file name and what was written. The figures of the transformation report
  are recorded without their pixels.\<close>

datatype content =
    FeaturesCsv dataframe
  | DistancesCsv "(cell \<times> cell \<times> real) list"
  | PeersCsv "cell list list"
  | Figure

type_synonym filesystem = "((string \<times> string) \<times> content) list"

definition to_csv :: "filesystem \<Rightarrow> string \<Rightarrow> string \<Rightarrow> content \<Rightarrow> filesystem" where
  "to_csv fs path name c = fs @ [((path, name), c)]"

definition savefig :: "filesystem \<Rightarrow> string \<Rightarrow> string \<Rightarrow> filesystem" where
  "savefig fs path name = fs @ [((path, name), Figure)]"


section \<open>Distance matrix and peer ranking\<close>

text \<open>The square frame \<^verbatim>\<open>dist_matrix\<close>: its row index and its column index are both the
  LA-name column, its entries the distances.\<close>

record dist_frame =
  labels :: "cell list"
  entries :: "real list list"

definition euclidean :: "real list \<Rightarrow> real list \<Rightarrow> real" where
  "euclidean u v = sqrt (\<Sum>(a, b) \<leftarrow> zip u v. (a - b)\<^sup>2)"

text \<open>\<^verbatim>\<open>distance.squareform(distance.pdist(X, metric))\<close>: scipy's \<^verbatim>\<open>pdist\<close> computes the
  metric once for each pair of rows \<open>i < j\<close>, and \<^verbatim>\<open>squareform\<close> fills both triangles of a
  square matrix from it, with zeros on the diagonal. For an empty condensed vector (no row or
  one row) \<^verbatim>\<open>squareform\<close> returns the 1 by 1 zero matrix.\<close>

definition squareform_pdist ::
  "(real list \<Rightarrow> real list \<Rightarrow> real) \<Rightarrow> real list list \<Rightarrow> real list list" where
  "squareform_pdist metric X =
     (let m = length X in
      if m = 0 then [[0]]
      else map (\<lambda>i. map (\<lambda>j. if i = j then 0
                              else if i < j then metric (X ! i) (X ! j)
                              else metric (X ! j) (X ! i)) [0..<m]) [0..<m])"

text \<open>Lines 305 to 315 of \<^verbatim>\<open>calculate_distance\<close>: the key columns are moved to the front,
  the remaining columns are the numeric matrix, one row per LA, and the square frame is
  built with the LA names as both indexes. The DataFrame constructor raises ValueError when
  the shape of the data differs from the length of the indexes.\<close>

definition reorder :: "dataframe \<Rightarrow> string \<Rightarrow> string \<Rightarrow> error + dataframe" where
  "reorder df la_code la_name =
     (let old_cols = filter (\<lambda>col. col \<notin> set [la_code, la_name]) (columns df);
          new_cols = [la_code, la_name] @ old_cols
      in select_columns df new_cols)"

definition drop_columns :: "dataframe \<Rightarrow> string list \<Rightarrow> dataframe" where
  "drop_columns df cs = filter (\<lambda>(c, s). c \<notin> set cs) df"

definition numeric_rows :: "nat \<Rightarrow> dataframe \<Rightarrow> error + real list list" where
  "numeric_rows n df =
     (case all_floats ValueError (map snd df) of
        Inl e \<Rightarrow> Inl e
      | Inr cols \<Rightarrow> Inr (map (\<lambda>i. map (\<lambda>col. col ! i) cols) [0..<n]))"

definition dist_matrix ::
  "(real list \<Rightarrow> real list \<Rightarrow> real) \<Rightarrow> dataframe \<Rightarrow> string \<Rightarrow> string \<Rightarrow> error + dist_frame" where
  "dist_matrix metric df la_code la_name =
     (case getitem df la_name of
        Inl e \<Rightarrow> Inl e
      | Inr names \<Rightarrow>
          (case numeric_rows (length names) (drop_columns df [la_code, la_name]) of
             Inl e \<Rightarrow> Inl e
           | Inr X \<Rightarrow>
               (let sq = squareform_pdist metric X in
                if length sq = length names \<and> list_all (\<lambda>row. length row = length names) sq
                then Inr \<lparr>labels = names, entries = sq\<rparr>
                else Inl ValueError)))"

text \<open>\<^verbatim>\<open>create_pairwise_distance_df\<close>: \<^verbatim>\<open>stack\<close> lists the entries row by row as
  (row label, column label, value); rows with equal labels are removed; the rest is sorted
  by first label, then distance, with a stable sort. Sorting a label column that mixes
  text and numbers raises TypeError.\<close>

definition stack :: "dist_frame \<Rightarrow> (cell \<times> cell \<times> real) list" where
  "stack M = concat (map (\<lambda>(a, row). map (\<lambda>(b, d). (a, b, d)) (zip (labels M) row))
                         (zip (labels M) (entries M)))"

definition create_pairwise_distance_df :: "dist_frame \<Rightarrow> error + (cell \<times> cell \<times> real) list" where
  "create_pairwise_distance_df M =
     (let dist_matrix_reshaped = filter (\<lambda>(a, b, d). a \<noteq> b) (stack M)
      in if comparable (labels M)
         then Inr (sort_key (\<lambda>(a, b, d). (a, d)) dist_matrix_reshaped)
         else Inl TypeError)"

text \<open>\<^verbatim>\<open>dist_matrix.nsmallest(n, columns=column)\<close>: the positions of the \<open>n\<close> rows with the
  smallest values in the column, smallest first, rows with equal values in row order
  (pandas' \<^verbatim>\<open>keep='first'\<close>); all rows when \<open>n\<close> exceeds their number, none when \<open>n \<le> 0\<close>.\<close>

definition nsmallest :: "int \<Rightarrow> real list \<Rightarrow> nat list" where
  "nsmallest n col =
     (if n \<le> 0 then [] else take (nat n) (sort_key (\<lambda>i. col ! i) [0..<length col]))"

definition column_at :: "dist_frame \<Rightarrow> nat \<Rightarrow> real list" where
  "column_at M j = map (\<lambda>row. row ! j) (entries M)"

text \<open>The loop of lines 324 to 330. A column is addressed by its label; when a label occurs
  twice, \<^verbatim>\<open>dist_matrix[column]\<close> is a frame, not a series, and \<^verbatim>\<open>nsmallest\<close> raises.\<close>

definition output_row :: "dist_frame \<Rightarrow> int \<Rightarrow> nat \<Rightarrow> cell list" where
  "output_row M k j =
     (let closest_distance = nsmallest (k + 1) (column_at M j);
          closest_k = tl (map (\<lambda>i. labels M ! i) closest_distance)
      in (labels M ! j) # closest_k)"

definition n_nearest_neighbours_array :: "dist_frame \<Rightarrow> int \<Rightarrow> error + cell list list" where
  "n_nearest_neighbours_array M k =
     (if distinct (labels M)
      then Inr (map (output_row M k) [0..<length (labels M)])
      else Inl AttributeError)"

text \<open>\<^verbatim>\<open>pd.DataFrame(rows, columns=[la_name] + [1..k])\<close>: raises ValueError when the rows
  are wider or narrower than the list of column names.\<close>

definition final_output :: "cell list list \<Rightarrow> int \<Rightarrow> error + cell list list" where
  "final_output rows k =
     (if rows = [] \<or> foldr (\<lambda>row w. max (length row) w) rows 0 = 1 + length [1..k]
      then Inr rows else Inl ValueError)"

definition example_utlas :: "cell list" where
  "example_utlas = map Str [''Cheshire West and Chester'', ''Harrow'', ''Herefordshire'',
     ''Lambeth'', ''Norfolk'', ''North East Lincolnshire'', ''Plymouth'', ''Reading'',
     ''South Tyneside'', ''Leeds'']"

text \<open>\<^verbatim>\<open>output_folders[i]\<close>, IndexError out of range.\<close>

definition folder :: "string list \<Rightarrow> nat \<Rightarrow> error + string" where
  "folder output_folders i =
     (if i < length output_folders then Inr (output_folders ! i) else Inl IndexError)"

definition OUTPUT_PATH :: string where
  "OUTPUT_PATH = ''output''"

text \<open>\<^verbatim>\<open>calculate_distance\<close>: the result is the disk after the call, with the error when
  the call raised.\<close>

definition calculate_distance ::
  "(real list \<Rightarrow> real list \<Rightarrow> real) \<Rightarrow> filesystem \<Rightarrow> dataframe \<Rightarrow> string list \<Rightarrow> string \<Rightarrow>
   string \<Rightarrow> int \<Rightarrow> filesystem \<times> (error + unit)" where
  "calculate_distance metric fs df output_folders la_code la_name k =
     (case reorder df la_code la_name of
        Inl e \<Rightarrow> (fs, Inl e)
      | Inr df1 \<Rightarrow>
     (case folder output_folders 1 of
        Inl e \<Rightarrow> (fs, Inl e)
      | Inr output \<Rightarrow>
     (case dist_matrix metric df1 la_code la_name of
        Inl e \<Rightarrow> (fs, Inl e)
      | Inr M \<Rightarrow>
     (case create_pairwise_distance_df M of
        Inl e \<Rightarrow> (fs, Inl e)
      | Inr dist_matrix_reshaped \<Rightarrow>
     (let fs1 = to_csv fs output ''distances.csv'' (DistancesCsv dist_matrix_reshaped);
          fs2 = to_csv fs1 OUTPUT_PATH ''distances.csv'' (DistancesCsv dist_matrix_reshaped)
      in
     (case n_nearest_neighbours_array M k of
        Inl e \<Rightarrow> (fs2, Inl e)
      | Inr rows \<Rightarrow>
     (case final_output rows k of
        Inl e \<Rightarrow> (fs2, Inl e)
      | Inr peers \<Rightarrow>
     (let example_10_output = filter (\<lambda>row. case row of [] \<Rightarrow> False | la # ps \<Rightarrow> la \<in> set example_utlas) peers;
          fs3 = to_csv fs2 output ''peers.csv'' (PeersCsv peers);
          fs4 = to_csv fs3 output ''example_peers.csv'' (PeersCsv example_10_output);
          fs5 = to_csv fs4 OUTPUT_PATH ''peers.csv'' (PeersCsv peers);
          fs6 = to_csv fs5 OUTPUT_PATH ''example_peers.csv'' (PeersCsv example_10_output)
      in (fs6, Inr ())))))))))"

section \<open>Sample tables\<close>

text \<open>Three LAs with one selected feature; Harrow and Leeds have the same value.\<close>

definition three_las :: dataframe where
  "three_las = [(''UTLA22CD'', [Str ''E09000015'', Str ''E08000035'', Str ''E06000038'']),
                (''UTLA22NM'', [Str ''Harrow'', Str ''Leeds'', Str ''Reading'']),
                (''density_best'', [Num 0, Num 0, Num 1])]"

section \<open>Feature transformation\<close>

text \<open>
  The numerical routines of the libraries are parameters of the model; what the theorems say
  holds for every choice of them. numpy, scipy and scikit-learn compute in IEEE doubles, so
  that a sum, a product, a power or a logarithm is the exact value only up to rounding. The
  model says which routine is applied to which values and leaves the value it returns to the
  routine:

    \<^item> \<^verbatim>\<open>yeojohnson_normmax\<close> and \<^verbatim>\<open>boxcox_normmax\<close>, the maximum-likelihood estimates of
      the shape parameter that \<^verbatim>\<open>yeojohnson\<close> and \<^verbatim>\<open>boxcox\<close> transform with; either may
      raise;
    \<^item> \<^verbatim>\<open>yeojohnson_transform x lmbda\<close> and \<^verbatim>\<open>special_boxcox x lmbda\<close>, the transform of one
      value with a given parameter;
    \<^item> the p-value of \<^verbatim>\<open>shapiro\<close>, which may raise;
    \<^item> \<^verbatim>\<open>x ** y\<close>, \<^verbatim>\<open>log1p\<close>, \<^verbatim>\<open>+\<close>, \<^verbatim>\<open>-\<close>, \<^verbatim>\<open>*\<close> and \<^verbatim>\<open>/\<close> on doubles;
    \<^item> \<open>constant_threshold\<close>, the spread below which scikit-learn takes a column to be
      constant: 0 in the versions that test \<^verbatim>\<open>scale == 0\<close>, ten machine epsilons from
      version 1.0 on.

  A double is modelled by the real number it stands for; NaN and the infinities have no
  matching value.
\<close>

record numerics =
  yeojohnson_normmax :: "real list \<Rightarrow> error + real"
  yeojohnson_transform :: "real \<Rightarrow> real \<Rightarrow> real"
  boxcox_normmax :: "real list \<Rightarrow> error + real"
  special_boxcox :: "real \<Rightarrow> real \<Rightarrow> real"
  shapiro_pvalue :: "real list \<Rightarrow> error + real"
  np_power :: "real \<Rightarrow> real \<Rightarrow> real"
  np_log1p :: "real \<Rightarrow> real"
  np_add :: "real \<Rightarrow> real \<Rightarrow> real"
  np_subtract :: "real \<Rightarrow> real \<Rightarrow> real"
  np_multiply :: "real \<Rightarrow> real \<Rightarrow> real"
  np_true_divide :: "real \<Rightarrow> real \<Rightarrow> real"
  constant_threshold :: real

text \<open>\<^verbatim>\<open>y, lam = yeojohnson(x)\<close>. For an empty sample scipy returns the sample alone, and
  unpacking it into two names raises ValueError.\<close>

definition yeojohnson :: "numerics \<Rightarrow> real list \<Rightarrow> error + real list" where
  "yeojohnson st x =
     (if x = [] then Inl ValueError
      else case yeojohnson_normmax st x of
             Inl e \<Rightarrow> Inl e
           | Inr lmax \<Rightarrow> Inr (map (\<lambda>v. yeojohnson_transform st v lmax) x))"

text \<open>\<^verbatim>\<open>y, lam = boxcox(x)\<close>. An empty sample is returned alone, as above; scipy raises
  ValueError when all values of the sample are equal (\<^verbatim>\<open>Data must not be constant.\<close>) and
  when a value is not positive (\<^verbatim>\<open>Data must be positive.\<close>).\<close>

definition boxcox :: "numerics \<Rightarrow> real list \<Rightarrow> error + real list" where
  "boxcox st x =
     (if x = [] then Inl ValueError
      else if list_all (\<lambda>v. v = hd x) x then Inl ValueError
      else if list_ex (\<lambda>v. v \<le> 0) x then Inl ValueError
      else case boxcox_normmax st x of
             Inl e \<Rightarrow> Inl e
           | Inr lmax \<Rightarrow> Inr (map (\<lambda>v. special_boxcox st v lmax) x))"

text \<open>\<^verbatim>\<open>series.min()\<close> and \<^verbatim>\<open>series.max()\<close>; \<open>None\<close> stands for the NaN pandas gives for
  an empty series, and every comparison with NaN is false.\<close>

fun series_min :: "real list \<Rightarrow> real option" where
  "series_min [] = None"
| "series_min (v # vs) = Some (fold min vs v)"

fun series_max :: "real list \<Rightarrow> real option" where
  "series_max [] = None"
| "series_max (v # vs) = Some (fold max vs v)"

text \<open>
  \<^verbatim>\<open>_transform_var(df, feature)\<close>. The function assigns new columns into the frame it is
  given and returns that frame with the flag. The model is state passing: the argument is
  the content of the frame object on entry, the first component of the result its content
  when the call ends, by return or by an exception. No assignment targets the column
  \<open>feature\<close> itself, so \<^verbatim>\<open>df[feature]\<close> is read once.
\<close>

definition transform_var :: "numerics \<Rightarrow> dataframe \<Rightarrow> string \<Rightarrow> dataframe \<times> (error + bool)" where
  "transform_var st df feature =
     (case getitem df feature of
        Inl e \<Rightarrow> (df, Inl e)
      | Inr col \<Rightarrow>
     (case to_floats TypeError col of
        Inl e \<Rightarrow> (df, Inl e)
      | Inr x \<Rightarrow>
     (let greater_than_zero = (case series_min x of None \<Rightarrow> False | Some m \<Rightarrow> 0 < m) in
     (case yeojohnson st x of
        Inl e \<Rightarrow> (df, Inl e)
      | Inr yj \<Rightarrow>
     (let df1 = setitem df (feature @ ''_yj'') (map Num yj);
          df2 = setitem df1 (feature @ ''_sqrr'') (map (\<lambda>v. Num (np_power st v (1 / 2))) x);
          df3 = setitem df2 (feature @ ''_log'') (map (\<lambda>v. Num (np_log1p st v)) x);
          df4 = setitem df3 (feature @ ''_squared'') (map (\<lambda>v. Num (np_power st v 2)) x)
      in if greater_than_zero
         then (case boxcox st x of
                 Inl e \<Rightarrow> (df4, Inl e)
               | Inr bc \<Rightarrow>
                   (let df5 = setitem df4 (feature @ ''_bc'') (map Num bc);
                        df6 = setitem df5 (feature @ ''_recip_sqrr'')
                                (map (\<lambda>v. Num (np_power st v (- 1 / 2))) x);
                        df7 = setitem df6 (feature @ ''_recip'')
                                (map (\<lambda>v. Num (np_true_divide st 1 v)) x)
                    in (df7, Inr True)))
         else (df4, Inr False))))))"

text \<open>
  \<^verbatim>\<open>MinMaxScaler(feature_range=(0, weight)).fit_transform(column)\<close>, as scikit-learn
  computes it. ValueError unless the lower end of the range is below the upper end, and on an
  empty or non-numeric column. \<^verbatim>\<open>fit\<close> takes the spread \<^verbatim>\<open>data_max - data_min\<close>, replaces
  it by 1 when it is zero or below the threshold, and sets
  \<^verbatim>\<open>scale_ = (weight - 0) / spread\<close> and \<^verbatim>\<open>min_ = 0 - data_min * scale_\<close>; \<^verbatim>\<open>transform\<close>
  multiplies each value by \<^verbatim>\<open>scale_\<close> and adds \<^verbatim>\<open>min_\<close>. Every operation is the one on
  doubles.
\<close>

definition min_max_scaler :: "numerics \<Rightarrow> real \<Rightarrow> series \<Rightarrow> error + series" where
  "min_max_scaler st weight col =
     (if 0 \<ge> weight then Inl ValueError
      else case to_floats ValueError col of
             Inl e \<Rightarrow> Inl e
           | Inr x \<Rightarrow>
               (case (series_min x, series_max x) of
                  (Some data_min, Some data_max) \<Rightarrow>
                    (let data_range = np_subtract st data_max data_min;
                         scale = np_true_divide st (np_subtract st weight 0)
                                   (if data_range = 0 \<or> data_range < constant_threshold st
                                    then 1 else data_range);
                         shift = np_subtract st 0 (np_multiply st data_min scale)
                     in Inr (map (\<lambda>v. Num (np_add st (np_multiply st v scale) shift)) x))
                | _ \<Rightarrow> Inl ValueError))"

text \<open>\<^verbatim>\<open>_normalise_var(df, weight, key_columns)\<close>: the loop over the columns of the frame,
  in state-passing form as above.\<close>

fun normalise_columns ::
  "numerics \<Rightarrow> real \<Rightarrow> string list \<Rightarrow> string list \<Rightarrow> dataframe \<Rightarrow> dataframe \<times> (error + unit)" where
  "normalise_columns st weight key_columns [] df = (df, Inr ())"
| "normalise_columns st weight key_columns (column # cs) df =
     (if column \<notin> set key_columns
      then (case getitem df column of
              Inl e \<Rightarrow> (df, Inl e)
            | Inr col \<Rightarrow>
                (case min_max_scaler st weight col of
                   Inl e \<Rightarrow> (df, Inl e)
                 | Inr scaled \<Rightarrow>
                     normalise_columns st weight key_columns cs (setitem df column scaled)))
      else normalise_columns st weight key_columns cs df)"

definition normalise_var ::
  "numerics \<Rightarrow> dataframe \<Rightarrow> real \<Rightarrow> string list \<Rightarrow> dataframe \<times> (error + unit)" where
  "normalise_var st df weight key_columns =
     normalise_columns st weight key_columns (columns df) df"

text \<open>
  \<^verbatim>\<open>_get_best_gaussian_transformation(df, feature, key_columns)\<close>. The dictionary
  \<^verbatim>\<open>p_values\<close> is built in column order; Python's \<^verbatim>\<open>max\<close> goes through its keys in that
  order and replaces its current best only by a strictly larger p-value; on an empty
  dictionary it raises ValueError.
\<close>

fun p_values :: "numerics \<Rightarrow> string list \<Rightarrow> dataframe \<Rightarrow> error + (string \<times> real) list" where
  "p_values st key_columns [] = Inr []"
| "p_values st key_columns ((column, col) # df) =
     (if column \<notin> set key_columns
      then (case to_floats ValueError col of
              Inl e \<Rightarrow> Inl e
            | Inr x \<Rightarrow>
                (case shapiro_pvalue st x of
                   Inl e \<Rightarrow> Inl e
                 | Inr p \<Rightarrow>
                     (case p_values st key_columns df of
                        Inl e \<Rightarrow> Inl e
                      | Inr ps \<Rightarrow> Inr ((column, p) # ps))))
      else p_values st key_columns df)"

fun max_from :: "string \<times> real \<Rightarrow> (string \<times> real) list \<Rightarrow> string \<times> real" where
  "max_from best [] = best"
| "max_from best (cp # ps) = (if snd best < snd cp then max_from cp ps else max_from best ps)"

definition max_by_value :: "(string \<times> real) list \<Rightarrow> error + string" where
  "max_by_value ps = (case ps of [] \<Rightarrow> Inl ValueError | cp # r \<Rightarrow> Inr (fst (max_from cp r)))"

definition get_best_gaussian_transformation ::
  "numerics \<Rightarrow> dataframe \<Rightarrow> string \<Rightarrow> string list \<Rightarrow> dataframe \<times> (error + unit)" where
  "get_best_gaussian_transformation st df feature key_columns =
     (case p_values st key_columns df of
        Inl e \<Rightarrow> (df, Inl e)
      | Inr ps \<Rightarrow>
          (case max_by_value ps of
             Inl e \<Rightarrow> (df, Inl e)
           | Inr max_p_col \<Rightarrow>
               (case getitem df max_p_col of
                  Inl e \<Rightarrow> (df, Inl e)
                | Inr col \<Rightarrow> (setitem df (feature @ ''_best'') col, Inr ()))))"

section \<open>Feature assembly\<close>

text \<open>
  \<^verbatim>\<open>left.merge(right, on=keys, how="inner")\<close>: every pair of a left row and a right row that
  agree on the key columns gives one row of the result, in the order of the left rows; the
  result has the columns of the left frame followed by the columns of the right frame that
  are not keys; a name that is not a key and occurs on both sides gets the suffix \<open>_x\<close> on
  the left and \<open>_y\<close> on the right. pandas raises when there is no key, when a key is not a
  column of both frames, when a key label is not unique and when two columns of the result
  would have the same name.
\<close>

datatype merge_side = Left | Right

definition key_rows :: "nat \<Rightarrow> dataframe \<Rightarrow> cell list list" where
  "key_rows n key_cols = map (\<lambda>i. map (\<lambda>(c, s). s ! i) key_cols) [0..<n]"

definition matching_rows :: "cell list list \<Rightarrow> cell list list \<Rightarrow> (nat \<times> nat) list" where
  "matching_rows lrows rrows =
     concat (map (\<lambda>i. map (Pair i) (filter (\<lambda>j. lrows ! i = rrows ! j) [0..<length rrows]))
                 [0..<length lrows])"

definition merged_name :: "string list \<Rightarrow> string list \<Rightarrow> merge_side \<Rightarrow> string \<Rightarrow> string" where
  "merged_name on other side c =
     (if c \<notin> set on \<and> c \<in> set other
      then c @ (case side of Left \<Rightarrow> ''_x'' | Right \<Rightarrow> ''_y'') else c)"

definition merge :: "dataframe \<Rightarrow> dataframe \<Rightarrow> string list \<Rightarrow> error + dataframe" where
  "merge left right on =
     (if on = [] then Inl ValueError
      else case select_columns left on of
             Inl e \<Rightarrow> Inl e
           | Inr lkeys \<Rightarrow>
          (case select_columns right on of
             Inl e \<Rightarrow> Inl e
           | Inr rkeys \<Rightarrow>
          (if \<not> distinct (columns left) \<or> \<not> distinct (columns right) then Inl ValueError
           else
             (let pairs = matching_rows (key_rows (nrows left) lkeys) (key_rows (nrows right) rkeys);
                  result =
                    map (\<lambda>(c, s). (merged_name on (columns right) Left c,
                                     map (\<lambda>(i, j). s ! i) pairs)) left
                    @ map (\<lambda>(c, s). (merged_name on (columns left) Right c,
                                       map (\<lambda>(i, j). s ! j) pairs))
                          (filter (\<lambda>(c, s). c \<notin> set on) right)
              in if distinct (columns result) then Inr result else Inl ValueError))))"

text \<open>
  Lines 73 to 87 of \<^verbatim>\<open>transform_data\<close>: the three stages applied to \<^verbatim>\<open>df_var\<close>, the
  private copy of the key columns and the feature column.
\<close>

definition candidates ::
  "numerics \<Rightarrow> dataframe \<Rightarrow> string list \<Rightarrow> bool \<Rightarrow> string \<Rightarrow> real \<Rightarrow> dataframe \<times> (error + bool)" where
  "candidates st df_var la_keys normalise feature weight =
     (case transform_var st df_var feature of
        (td, Inl e) \<Rightarrow> (td, Inl e)
      | (td, Inr greater_than_zero) \<Rightarrow>
          (case (if normalise then normalise_var st td weight la_keys else (td, Inr ())) of
             (td, Inl e) \<Rightarrow> (td, Inl e)
           | (td, Inr u) \<Rightarrow>
               (case get_best_gaussian_transformation st td feature la_keys of
                  (td, Inl e) \<Rightarrow> (td, Inl e)
                | (td, Inr u) \<Rightarrow> (td, Inr greater_than_zero))))"

text \<open>Lines 99 to 107: the name of the column that goes into the output.\<close>

definition column_to_use :: "(string \<rightharpoonup> string) option \<Rightarrow> string \<Rightarrow> string" where
  "column_to_use custom_transformation feature =
     (case custom_transformation of
        None \<Rightarrow> feature @ ''_best''
      | Some ct \<Rightarrow> (case ct feature of
                     None \<Rightarrow> feature @ ''_best''
                   | Some code \<Rightarrow> feature @ ''_'' @ code))"

definition report_folder :: string where
  "report_folder = ''reports''"

definition transformations_folder :: string where
  "transformations_folder = ''transformations''"

text \<open>\<^verbatim>\<open>transformation_report\<close> reads columns the transformer has produced and saves one
  figure, at the path named after the feature, in two folders.\<close>

definition transformation_report :: "filesystem \<Rightarrow> string \<Rightarrow> string \<Rightarrow> filesystem" where
  "transformation_report fs out feature =
     savefig (savefig fs (report_folder @ ''/'' @ transformations_folder) feature) out feature"

text \<open>The body of the loop over \<^verbatim>\<open>features.items()\<close>; its state is the disk and
  \<^verbatim>\<open>transformed_output\<close>.\<close>

definition transform_feature ::
  "numerics \<Rightarrow> dataframe \<Rightarrow> string list \<Rightarrow> string list \<Rightarrow> bool \<Rightarrow> bool \<Rightarrow>
   (string \<rightharpoonup> string) option \<Rightarrow> string \<times> real \<Rightarrow> filesystem \<times> dataframe \<Rightarrow>
   filesystem \<times> (error + dataframe)" where
  "transform_feature st df_all la_keys output_folders report normalise custom_transformation fw state =
     (case (fw, state) of ((feature, weight), (fs, transformed_output)) \<Rightarrow>
     (case select_columns df_all (la_keys @ [feature]) of
        Inl e \<Rightarrow> (fs, Inl e)
      | Inr df_var \<Rightarrow>
     (if 0 < weight
      then (case candidates st df_var la_keys normalise feature weight of
              (td, Inl e) \<Rightarrow> (fs, Inl e)
            | (transformed_data, Inr greater_than_zero) \<Rightarrow>
           (case (if report
                  then (case folder output_folders 3 of
                          Inl e \<Rightarrow> Inl e
                        | Inr OUT_TRANS \<Rightarrow> Inr (transformation_report fs OUT_TRANS feature))
                  else Inr fs) of
              Inl e \<Rightarrow> (fs, Inl e)
            | Inr fs1 \<Rightarrow>
           (case select_columns transformed_data
                   (la_keys @ [column_to_use custom_transformation feature]) of
              Inl e \<Rightarrow> (fs1, Inl e)
            | Inr chosen \<Rightarrow>
           (case merge transformed_output chosen la_keys of
              Inl e \<Rightarrow> (fs1, Inl e)
            | Inr merged \<Rightarrow> (fs1, Inr merged)))))
      else (fs, Inr transformed_output))))"

fun transform_features ::
  "numerics \<Rightarrow> dataframe \<Rightarrow> string list \<Rightarrow> string list \<Rightarrow> bool \<Rightarrow> bool \<Rightarrow>
   (string \<rightharpoonup> string) option \<Rightarrow> (string \<times> real) list \<Rightarrow> filesystem \<times> dataframe \<Rightarrow>
   filesystem \<times> (error + dataframe)" where
  "transform_features st df_all la_keys output_folders report normalise ct [] (fs, out) =
     (fs, Inr out)"
| "transform_features st df_all la_keys output_folders report normalise ct (fw # features) (fs, out) =
     (case transform_feature st df_all la_keys output_folders report normalise ct fw (fs, out) of
        (fs1, Inl e) \<Rightarrow> (fs1, Inl e)
      | (fs1, Inr out1) \<Rightarrow>
          transform_features st df_all la_keys output_folders report normalise ct features (fs1, out1))"

text \<open>
  \<^verbatim>\<open>transform_data\<close>. \<open>df_all\<close> is the table read from the aggregated file; \<open>features\<close> is
  the dictionary of weights in its insertion order. The result is the disk after the call
  and the frame returned, or the error raised.
\<close>

definition transform_data ::
  "numerics \<Rightarrow> filesystem \<Rightarrow> dataframe \<Rightarrow> string list \<Rightarrow> string list \<Rightarrow> (string \<times> real) list \<Rightarrow>
   bool \<Rightarrow> bool \<Rightarrow> (string \<rightharpoonup> string) option \<Rightarrow> filesystem \<times> (error + dataframe)" where
  "transform_data st fs df_all la_keys output_folders features report normalise custom_transformation =
     (case select_columns df_all la_keys of
        Inl e \<Rightarrow> (fs, Inl e)
      | Inr transformed_output \<Rightarrow>
     (case transform_features st df_all la_keys output_folders report normalise
             custom_transformation features (fs, transformed_output) of
        (fs1, Inl e) \<Rightarrow> (fs1, Inl e)
      | (fs1, Inr transformed_output) \<Rightarrow>
     (case folder output_folders 1 of
        Inl e \<Rightarrow> (fs1, Inl e)
      | Inr out \<Rightarrow>
          (let fs2 = to_csv fs1 out ''features.csv'' (FeaturesCsv transformed_output);
               fs3 = to_csv fs2 OUTPUT_PATH ''features.csv'' (FeaturesCsv transformed_output)
           in (fs3, Inr transformed_output)))))"


text \<open>
  Stand-ins for the library routines in the examples. The arithmetic is exact: the
  transforms, the powers and the logarithm are the real functions of which the library
  routines compute the rounded values, and only a spread of zero counts as constant. Both
  shape parameters are 1, and the p-value of a sample is its size, so that all candidates of
  one feature tie.
\<close>

definition exact_yeojohnson_transform :: "real \<Rightarrow> real \<Rightarrow> real" where
  "exact_yeojohnson_transform v lmbda =
     (if 0 \<le> v
      then (if lmbda = 0 then ln (v + 1) else ((v + 1) powr lmbda - 1) / lmbda)
      else (if lmbda = 2 then - ln (- v + 1)
            else - ((- v + 1) powr (2 - lmbda) - 1) / (2 - lmbda)))"

definition exact_boxcox :: "real \<Rightarrow> real \<Rightarrow> real" where
  "exact_boxcox v lmbda = (if lmbda = 0 then ln v else (v powr lmbda - 1) / lmbda)"

definition exact_power :: "real \<Rightarrow> real \<Rightarrow> real" where
  "exact_power v y = (if y = 2 then v\<^sup>2 else if y = 1 / 2 then sqrt v else v powr y)"

definition sample_stats :: numerics where
  "sample_stats = \<lparr>yeojohnson_normmax = (\<lambda>x. Inr 1),
                    yeojohnson_transform = exact_yeojohnson_transform,
                    boxcox_normmax = (\<lambda>x. Inr 1),
                    special_boxcox = exact_boxcox,
                    shapiro_pvalue = (\<lambda>x. Inr (real (length x))),
                    np_power = exact_power,
                    np_log1p = (\<lambda>v. ln (1 + v)),
                    np_add = (+), np_subtract = (-), np_multiply = (*), np_true_divide = (/),
                    constant_threshold = 0\<rparr>"

text \<open>The same stand-ins with a p-value that tells samples apart: a tenth of the largest
  value of the sample.\<close>

definition largest_value_stats :: numerics where
  "largest_value_stats = sample_stats\<lparr>shapiro_pvalue := (\<lambda>x. Inr (fold max x 0 / 10))\<rparr>"

text \<open>The positive input of \<^verbatim>\<open>test_transform_var\<close>, cut to three rows.\<close>

definition positive_feature :: dataframe where
  "positive_feature = [(''index'', [Num 0, Num 1, Num 2]),
                       (''transformation_1'', [Num 2, Num 4, Num 6])]"

text \<open>Three candidate columns. Their p-values under \<open>sample_stats\<close> are all 3; under
  \<open>largest_value_stats\<close> they are 3/10, 5/10 and 5/10.\<close>

definition three_candidates :: dataframe where
  "three_candidates = [(''index'', [Num 0, Num 1, Num 2]),
                       (''transformation_1'', [Num 1, Num 2, Num 3]),
                       (''transformation_2'', [Num 0, Num 5, Num 1]),
                       (''transformation_3'', [Num 5, Num 0, Num 2])]"

text \<open>A feature with a spread and a constant feature.\<close>

definition two_features :: dataframe where
  "two_features = [(''index'', [Num 0, Num 1, Num 2]),
                   (''density'', [Num 10, Num 20, Num 30]),
                   (''flat'', [Num 3, Num 3, Num 3])]"

definition flat_feature :: dataframe where
  "flat_feature = [(''index'', [Num 0, Num 1, Num 2]), (''flat'', [Num 3, Num 3, Num 3])]"

section \<open>Frames as objects\<close>

text \<open>
  A DataFrame is an object; a Python name holds a reference to it. A store maps references
  to the content of the frames. In a call \<^verbatim>\<open>f(df, ...)\<close> of one of the three stages, \<open>df\<close> is a
  reference: the stage assigns its columns into the frame at that reference, and its
  \<^verbatim>\<open>return df\<close> gives the reference back.
\<close>

type_synonym ref = nat

type_synonym store = "ref \<Rightarrow> dataframe"

definition transform_var_call ::
  "numerics \<Rightarrow> store \<Rightarrow> ref \<Rightarrow> string \<Rightarrow> store \<times> (error + ref \<times> bool)" where
  "transform_var_call st s df feature =
     (case transform_var st (s df) feature of
        (content, Inl e) \<Rightarrow> (s(df := content), Inl e)
      | (content, Inr greater_than_zero) \<Rightarrow> (s(df := content), Inr (df, greater_than_zero)))"

definition normalise_var_call ::
  "numerics \<Rightarrow> store \<Rightarrow> ref \<Rightarrow> real \<Rightarrow> string list \<Rightarrow> store \<times> (error + ref)" where
  "normalise_var_call st s df weight key_columns =
     (case normalise_var st (s df) weight key_columns of
        (content, Inl e) \<Rightarrow> (s(df := content), Inl e)
      | (content, Inr u) \<Rightarrow> (s(df := content), Inr df))"

definition get_best_gaussian_transformation_call ::
  "numerics \<Rightarrow> store \<Rightarrow> ref \<Rightarrow> string \<Rightarrow> string list \<Rightarrow> store \<times> (error + ref)" where
  "get_best_gaussian_transformation_call st s df feature key_columns =
     (case get_best_gaussian_transformation st (s df) feature key_columns of
        (content, Inl e) \<Rightarrow> (s(df := content), Inl e)
      | (content, Inr u) \<Rightarrow> (s(df := content), Inr df))"

text \<open>A store with three frames.\<close>

definition sample_store :: store where
  "sample_store = (\<lambda>r. [])(0 := positive_feature, 1 := two_features, 2 := three_candidates)"

text \<open>An aggregated table of three LAs with one feature that contains a zero.\<close>

definition aggregated :: dataframe where
  "aggregated = [(''UTLA22CD'', [Str ''E09000015'', Str ''E08000035'', Str ''E06000038'']),
                 (''UTLA22NM'', [Str ''Harrow'', Str ''Leeds'', Str ''Reading'']),
                 (''density'', [Num 0, Num 1, Num 4])]"

definition la_keys_frame :: dataframe where
  "la_keys_frame = [(''UTLA22CD'', [Str ''E09000015'', Str ''E08000035'', Str ''E06000038'']),
                    (''UTLA22NM'', [Str ''Harrow'', Str ''Leeds'', Str ''Reading''])]"

text \<open>The candidates of \<open>density\<close> in \<open>aggregated\<close>, normalised to weight 1, under
  \<open>sample_stats\<close>.\<close>

definition density_candidates :: dataframe where
  "density_candidates =
     [(''UTLA22CD'', [Str ''E09000015'', Str ''E08000035'', Str ''E06000038'']),
      (''UTLA22NM'', [Str ''Harrow'', Str ''Leeds'', Str ''Reading'']),
      (''density'', [Num 0, Num (1 / 4), Num 1]),
      (''density_yj'', [Num 0, Num (1 / 4), Num 1]),
      (''density_sqrr'', [Num 0, Num (1 / 2), Num 1]),
      (''density_log'', [Num 0, Num (ln 2 / ln 5), Num 1]),
      (''density_squared'', [Num 0, Num (1 / 16), Num 1]),
      (''density_best'', [Num 0, Num (1 / 4), Num 1])]"

definition run_folders :: "string list" where
  "run_folders = [''runs/a1'', ''runs/a1/output'', ''runs/a1/reports'',
                  ''runs/a1/transformations'']"

text \<open>The names of the columns that the three stages can add for a feature.\<close>

definition variant_names :: "string \<Rightarrow> string set" where
  "variant_names feature = (\<lambda>sfx. feature @ sfx) ` {''_yj'', ''_sqrr'', ''_log'', ''_squared'', ''_bc'',
      ''_recip_sqrr'', ''_recip'', ''_best''}"

section \<open>Properties\<close>

subsection \<open>Shapes\<close>

lemma getitem_Inr_iff:
  "getitem df c = Inr s \<longleftrightarrow> matching df c = [(c, s)]"
proof -
  have fst: "\<forall>x \<in> set (matching df c). fst x = c" by (auto simp: matching_def)
  show ?thesis
  proof (cases "matching df c")
    case Nil
    then show ?thesis by (simp add: getitem_def)
  next
    case (Cons m ms)
    obtain c' s' where m: "m = (c', s')" by (cases m)
    with fst Cons have "c' = c" by auto
    with Cons m show ?thesis by (cases ms) (auto simp: getitem_def)
  qed
qed

lemma getitem_in_set:
  "getitem df c = Inr s \<Longrightarrow> (c, s) \<in> set df"
proof -
  assume "getitem df c = Inr s"
  then have "(c, s) \<in> set (matching df c)" by (simp add: getitem_Inr_iff)
  then show ?thesis by (simp add: matching_def)
qed

lemma matching_distinct:
  "distinct (columns df) \<Longrightarrow> (c, s) \<in> set df \<Longrightarrow> matching df c = [(c, s)]"
proof (induction df)
  case Nil
  then show ?case by simp
next
  case (Cons a df)
  obtain c' s' where a: "a = (c', s')" by (cases a)
  show ?case
  proof (cases "c' = c")
    case True
    with Cons.prems a have "s' = s" and "c \<notin> fst ` set df"
      by (auto simp: columns_def rev_image_eqI)
    then have "filter (\<lambda>(c', s). c' = c) df = []"
      by (auto simp: filter_empty_conv rev_image_eqI)
    with True a \<open>s' = s\<close> show ?thesis by (simp add: matching_def)
  next
    case False
    with Cons a show ?thesis by (auto simp: matching_def columns_def)
  qed
qed

lemma getitem_distinct:
  "distinct (columns df) \<Longrightarrow> (c, col) \<in> set df \<Longrightarrow> getitem df c = Inr col"
  by (simp add: getitem_Inr_iff matching_distinct)

lemma getitem_columns:
  "getitem df c = Inr col \<Longrightarrow> c \<in> set (columns df)"
  by (drule getitem_in_set) (force simp: columns_def)

lemma getitem_missing:
  "c \<notin> set (columns df) \<Longrightarrow> getitem df c = Inl KeyError"
proof -
  assume "c \<notin> set (columns df)"
  then have "matching df c = []"
    by (auto simp: matching_def filter_empty_conv columns_def rev_image_eqI)
  then show ?thesis by (simp add: getitem_def)
qed

lemma select_columns_subset:
  "select_columns df cs = Inr r \<Longrightarrow> set r \<subseteq> set df"
proof (induction cs arbitrary: r)
  case Nil
  then show ?case by simp
next
  case (Cons c cs)
  from Cons.prems obtain m ms r' where m: "matching df c = m # ms"
    and r': "select_columns df cs = Inr r'" and r: "r = m # ms @ r'"
    by (auto split: list.splits sum.splits)
  have "set (m # ms) \<subseteq> set df" unfolding m[symmetric] by (auto simp: matching_def)
  with Cons.IH[OF r'] r show ?case by auto
qed

lemma getitem_length:
  "wf_frame df \<Longrightarrow> getitem df c = Inr s \<Longrightarrow> length s = nrows df"
  by (auto simp: wf_frame_def list_all_iff dest!: getitem_in_set)

lemma getitem_reorder_length:
  assumes "wf_frame df" and "reorder df la_code la_name = Inr df1"
    and "getitem df1 la_name = Inr names"
  shows "length names = nrows df"
proof -
  from assms(2) have "set df1 \<subseteq> set df"
    unfolding reorder_def Let_def by (rule select_columns_subset)
  with getitem_in_set[OF assms(3)] have "(la_name, names) \<in> set df" by auto
  with assms(1) show ?thesis by (auto simp: wf_frame_def list_all_iff)
qed

lemma dist_matrix_shape:
  assumes "dist_matrix metric df la_code la_name = Inr M"
  shows "getitem df la_name = Inr (labels M)" and "labels M \<noteq> []"
    and "length (entries M) = length (labels M)"
    and "\<forall>row \<in> set (entries M). length row = length (labels M)"
  using assms
  by (auto simp: dist_matrix_def Let_def squareform_pdist_def numeric_rows_def list_all_iff
      split: sum.splits if_splits)

lemma length_nsmallest:
  "length (nsmallest n col) = min (nat n) (length col)"
  by (simp add: nsmallest_def min.commute)

lemma length_output_row:
  "length (entries M) \<noteq> 0 \<Longrightarrow> 0 \<le> k \<Longrightarrow>
     length (output_row M k j) = min (nat (k + 1)) (length (entries M))"
  by (simp add: output_row_def Let_def length_nsmallest column_at_def)

lemma width_const:
  "rows \<noteq> [] \<Longrightarrow> \<forall>r \<in> set rows. length r = w \<Longrightarrow>
     foldr (\<lambda>row w. max (length row) w) rows 0 = w"
proof (induction rows)
  case Nil
  then show ?case by simp
next
  case (Cons a rows)
  then show ?case by (cases "rows = []") (auto simp: max_def)
qed

subsection \<open>Peer ranking with too large a k\<close>

text \<open>
  C7. For a feature table of \<open>n\<close> LAs, \<^verbatim>\<open>calculate_distance\<close> raises whenever \<open>k \<ge> n\<close>:
  when the table is usable at all, every ranking row holds the LA and its \<open>n - 1\<close> peers,
  \<open>n\<close> entries, while \<open>k + 1\<close> column names are passed to the DataFrame constructor.
\<close>

theorem calculate_distance_fails_k_too_large:
  assumes "wf_frame df" and "int (nrows df) \<le> k"
  shows "\<exists>e. snd (calculate_distance metric fs df output_folders la_code la_name k) = Inl e"
proof (cases "reorder df la_code la_name")
  case (Inl e)
  then show ?thesis by (simp add: calculate_distance_def)
next
  case df1: (Inr df1)
  show ?thesis
  proof (cases "folder output_folders 1")
    case (Inl e)
    then show ?thesis by (simp add: calculate_distance_def df1)
  next
    case (Inr outp)
    then have out: "folder output_folders (Suc 0) = Inr outp" by simp
    show ?thesis
    proof (cases "dist_matrix metric df1 la_code la_name")
      case (Inl e)
      then show ?thesis by (simp add: calculate_distance_def df1 out)
    next
      case M: (Inr M)
      have n: "length (labels M) = nrows df"
        using getitem_reorder_length[OF assms(1) df1 dist_matrix_shape(1)[OF M]] .
      have ne: "labels M \<noteq> []" and len: "length (entries M) = length (labels M)"
        using dist_matrix_shape[OF M] by auto
      have k0: "0 \<le> k" using assms(2) by simp
      show ?thesis
      proof (cases "create_pairwise_distance_df M")
        case (Inl e)
        then show ?thesis by (simp add: calculate_distance_def df1 out M)
      next
        case T: (Inr T)
        show ?thesis
        proof (cases "n_nearest_neighbours_array M k")
          case (Inl e)
          then show ?thesis by (simp add: calculate_distance_def df1 out M T Let_def)
        next
          case rows: (Inr rows)
          have rows_eq: "rows = map (output_row M k) [0..<length (labels M)]"
            using rows by (simp add: n_nearest_neighbours_array_def split: if_splits)
          have rne: "rows \<noteq> []" using ne rows_eq by simp
          have w: "\<forall>r \<in> set rows. length r = length (labels M)"
            using rows_eq length_output_row[of M k] ne len k0 n assms(2) by auto
          have "foldr (\<lambda>row w. max (length row) w) rows 0 = length (labels M)"
            using width_const[OF rne w] .
          moreover have "length (labels M) \<noteq> 1 + length [1..k]"
            using n assms(2) by simp
          ultimately have "final_output rows k = Inl ValueError"
            using rne by (simp add: final_output_def)
          then show ?thesis
            by (simp add: calculate_distance_def df1 out M T rows Let_def)
        qed
      qed
    qed
  qed
qed

theorem calculate_distance_fails_k_too_large_witness:
  "wf_frame [(''UTLA22CD'', [Str ''E1'', Str ''E2'']), (''UTLA22NM'', [Str ''Leeds'', Str ''Harrow'']),
             (''density_best'', [Num 0, Num 1])]
   \<and> int (nrows [(''UTLA22CD'', [Str ''E1'', Str ''E2'']),
                  (''UTLA22NM'', [Str ''Leeds'', Str ''Harrow'']),
                  (''density_best'', [Num 0, Num 1])]) \<le> 2
   \<and> (\<exists>e. snd (calculate_distance euclidean []
          [(''UTLA22CD'', [Str ''E1'', Str ''E2'']), (''UTLA22NM'', [Str ''Leeds'', Str ''Harrow'']),
           (''density_best'', [Num 0, Num 1])]
          [''runs/a/reports'', ''runs/a/outputs''] ''UTLA22CD'' ''UTLA22NM'' 2) = Inl e)"
proof -
  let ?df = "[(''UTLA22CD'', [Str ''E1'', Str ''E2'']), (''UTLA22NM'', [Str ''Leeds'', Str ''Harrow'']),
              (''density_best'', [Num 0, Num 1])]"
  have h1: "wf_frame ?df" by (simp add: wf_frame_def columns_def nrows_def)
  have h2: "int (nrows ?df) \<le> 2" by (simp add: nrows_def)
  show ?thesis
    using h1 h2 calculate_distance_fails_k_too_large [OF h1 h2] by blast
qed

subsection \<open>The long-form pairwise table\<close>

lemma length_filter_neq_distinct:
  "distinct xs \<Longrightarrow> a \<in> set xs \<Longrightarrow> length (filter (\<lambda>b. a \<noteq> b) xs) = length xs - 1"
proof (induction xs)
  case Nil
  then show ?case by simp
next
  case (Cons x xs)
  show ?case
  proof (cases "a = x")
    case True
    with Cons.prems have "filter (\<lambda>b. a \<noteq> b) xs = xs"
      by (auto simp: filter_id_conv)
    with True show ?thesis by simp
  next
    case False
    with Cons have "length (filter (\<lambda>b. a \<noteq> b) xs) = length xs - 1" and "xs \<noteq> []"
      by auto
    with False show ?thesis by (cases xs) auto
  qed
qed

lemma filter_zip_fst:
  "length ys = length xs \<Longrightarrow>
     length (filter (\<lambda>(b, d). P b) (zip xs ys)) = length (filter P xs)"
  by (induction xs ys rule: list_induct2') auto

lemma stack_row_length:
  assumes "distinct names" and "a \<in> set names" and "length row = length names"
  shows "length (filter (\<lambda>(a, b, d). a \<noteq> b) (map (\<lambda>(b, d). (a, b, d)) (zip names row)))
         = length names - 1"
proof -
  have "filter (\<lambda>(a, b, d). a \<noteq> b) (map (\<lambda>(b, d). (a, b, d)) (zip names row))
        = map (\<lambda>(b, d). (a, b, d)) (filter (\<lambda>(b, d). a \<noteq> b) (zip names row))"
    by (simp add: filter_map comp_def case_prod_unfold)
  then show ?thesis
    using filter_zip_fst[of row names "\<lambda>b. a \<noteq> b"] length_filter_neq_distinct[OF assms(1,2)] assms(3)
    by simp
qed

lemma length_concat_const:
  "\<forall>xs \<in> set xss. length xs = c \<Longrightarrow> length (concat xss) = length xss * c"
  by (induction xss) auto

lemma length_filter_stack:
  assumes "distinct (labels M)" and "length (entries M) = length (labels M)"
    and "\<forall>row \<in> set (entries M). length row = length (labels M)"
  shows "length (filter (\<lambda>(a, b, d). a \<noteq> b) (stack M)) = length (labels M) * (length (labels M) - 1)"
proof -
  let ?pieces = "map (\<lambda>(a, row). filter (\<lambda>(a, b, d). a \<noteq> b)
                     (map (\<lambda>(b, d). (a, b, d)) (zip (labels M) row))) (zip (labels M) (entries M))"
  have eq: "filter (\<lambda>(a, b, d). a \<noteq> b) (stack M) = concat ?pieces"
    by (simp add: stack_def filter_concat comp_def case_prod_unfold)
  have "\<forall>xs \<in> set ?pieces. length xs = length (labels M) - 1"
  proof
    fix xs assume "xs \<in> set ?pieces"
    then obtain a row where ar: "(a, row) \<in> set (zip (labels M) (entries M))"
      and xs: "xs = filter (\<lambda>(a, b, d). a \<noteq> b) (map (\<lambda>(b, d). (a, b, d)) (zip (labels M) row))"
      by auto
    from ar have "a \<in> set (labels M)" and "row \<in> set (entries M)"
      by (auto dest: set_zip_leftD set_zip_rightD)
    then show "length xs = length (labels M) - 1"
      using stack_row_length[OF assms(1), of a row] assms(3) xs by simp
  qed
  then have "length (concat ?pieces) = length ?pieces * (length (labels M) - 1)"
    by (rule length_concat_const)
  then show ?thesis using eq assms(2) by simp
qed

lemma map_fst_zip_row:
  "length row = length names \<Longrightarrow> map (\<lambda>(b, d). (a, b)) (zip names row) = map (Pair a) names"
  by (induction names row rule: list_induct2') auto

lemma pairs_of_stack:
  assumes "length (entries M) = length (labels M)"
    and "\<forall>row \<in> set (entries M). length row = length (labels M)"
  shows "map (\<lambda>(a, b, d). (a, b)) (stack M) = List.product (labels M) (labels M)"
proof -
  have "map (\<lambda>(a, b, d). (a, b)) (stack M)
        = concat (map (\<lambda>(a, row). map (\<lambda>(b, d). (a, b)) (zip (labels M) row))
                      (zip (labels M) (entries M)))"
    by (simp add: stack_def map_concat comp_def case_prod_unfold)
  also have "\<dots> = concat (map (\<lambda>(a, row). map (Pair a) (labels M)) (zip (labels M) (entries M)))"
    using assms(2) by (intro arg_cong[where f = concat] map_cong refl)
      (auto simp: map_fst_zip_row dest: set_zip_rightD)
  also have "\<dots> = concat (map (\<lambda>a. map (Pair a) (labels M)) (map fst (zip (labels M) (entries M))))"
    by (simp add: comp_def case_prod_unfold)
  also have "\<dots> = List.product (labels M) (labels M)"
    using assms(1) by (simp add: product_concat_map)
  finally show ?thesis .
qed

lemma distinct_map_insort_key:
  "distinct (map g (insort_key f x xs)) \<longleftrightarrow> g x \<notin> g ` set xs \<and> distinct (map g xs)"
  by (induction xs) (auto simp: set_insort_key)

lemma distinct_map_sort_key:
  "distinct (map g (sort_key f xs)) = distinct (map g xs)"
  by (induction xs) (auto simp: sort_key_simps distinct_map_insort_key)

lemma set_stack:
  assumes "length (entries M) = length (labels M)"
    and "\<forall>row \<in> set (entries M). length row = length (labels M)"
  shows "set (stack M) = {(labels M ! i, labels M ! j, entries M ! i ! j) | i j.
            i < length (labels M) \<and> j < length (labels M)}"
  using assms
  apply (auto simp: stack_def set_zip)
  apply force
  done

lemma sorted_pairs:
  "sorted (map (\<lambda>(a, b, d). (a, d)) (T :: (cell \<times> cell \<times> real) list)) \<Longrightarrow>
   sorted_wrt (\<lambda>(a, b, d) (a', b', d'). a < a' \<or> (a = a' \<and> d \<le> d')) T"
  unfolding sorted_map
  by (erule sorted_wrt_mono_rel[rotated]) (auto simp: less_eq_prod_def)

lemma squareform_pdist_shape:
  assumes "length X = n" and "n \<noteq> 0"
  shows "length (squareform_pdist metric X) = n"
    and "\<forall>row \<in> set (squareform_pdist metric X). length row = n"
    and "\<forall>i < n. \<forall>j < n. squareform_pdist metric X ! i ! j = squareform_pdist metric X ! j ! i"
    and "\<forall>i < n. squareform_pdist metric X ! i ! i = 0"
  using assms by (auto simp: squareform_pdist_def Let_def)

lemma numeric_rows_length:
  "numeric_rows n df = Inr X \<Longrightarrow> length X = n"
  by (auto simp: numeric_rows_def split: sum.splits)

text \<open>
  C2. For a table of \<open>n \<ge> 1\<close> LAs with distinct names (all text, or all numbers) and numeric
  feature columns, the distance matrix and the long-form table are produced; the matrix is
  symmetric with a zero diagonal; the table has \<open>n (n - 1)\<close> rows, none of them a self-pair;
  it holds every ordered pair of distinct LAs exactly once, with the matrix entry as its
  distance; and it is sorted by first LA, then by distance.
\<close>

theorem distance_matrix_and_pairwise_table:
  assumes names: "getitem df la_name = Inr names"
    and ne: "names \<noteq> []"
    and dist: "distinct names"
    and cmp: "comparable names"
    and num: "numeric_rows (length names) (drop_columns df [la_code, la_name]) = Inr X"
  shows "\<exists>E T. dist_matrix metric df la_code la_name = Inr \<lparr>labels = names, entries = E\<rparr>
           \<and> create_pairwise_distance_df \<lparr>labels = names, entries = E\<rparr> = Inr T
           \<and> (\<forall>i < length names. \<forall>j < length names. E ! i ! j = E ! j ! i)
           \<and> (\<forall>i < length names. E ! i ! i = 0)
           \<and> length T = length names * (length names - 1)
           \<and> (\<forall>(a, b, d) \<in> set T. a \<noteq> b)
           \<and> distinct (map (\<lambda>(a, b, d). (a, b)) T)
           \<and> set T = {(names ! i, names ! j, E ! i ! j) | i j.
                        i < length names \<and> j < length names \<and> i \<noteq> j}
           \<and> sorted_wrt (\<lambda>(a, b, d) (a', b', d'). a < a' \<or> (a = a' \<and> d \<le> d')) T"
proof -
  define E where "E = squareform_pdist metric X"
  define M where "M = \<lparr>labels = names, entries = E\<rparr>"
  define T where "T = sort_key (\<lambda>(a, b, d). (a, d)) (filter (\<lambda>(a, b, d). a \<noteq> b) (stack M))"
  have n0: "length names \<noteq> 0" using ne by simp
  have X: "length X = length names" using numeric_rows_length[OF num] .
  note sh = squareform_pdist_shape[OF X n0, of metric, folded E_def]
  have lenE: "length (entries M) = length (labels M)"
    and rowsE: "\<forall>row \<in> set (entries M). length row = length (labels M)"
    using sh(1,2) by (simp_all add: M_def)
  have dm: "dist_matrix metric df la_code la_name = Inr M"
    using names num sh(1,2) by (simp add: dist_matrix_def Let_def M_def E_def list_all_iff)
  have cp: "create_pairwise_distance_df M = Inr T"
    using cmp by (simp add: create_pairwise_distance_df_def T_def M_def Let_def)
  have len: "length T = length names * (length names - 1)"
    using length_filter_stack[OF _ lenE rowsE] dist by (simp add: T_def M_def)
  have setT: "set T = {(a, b, d). (a, b, d) \<in> set (stack M) \<and> a \<noteq> b}"
    by (auto simp: T_def)
  have noself: "\<forall>(a, b, d) \<in> set T. a \<noteq> b"
    using setT by auto
  have "distinct (map (\<lambda>(a, b, d). (a, b)) (stack M))"
    using pairs_of_stack[OF lenE rowsE] dist by (simp add: distinct_product M_def)
  then have dpairs: "distinct (map (\<lambda>(a, b, d). (a, b)) T)"
    by (simp add: T_def distinct_map_sort_key distinct_map_filter)
  have "set T = {(names ! i, names ! j, E ! i ! j) | i j.
                   i < length names \<and> j < length names \<and> i \<noteq> j}"
  proof -
    have "set (stack M) = {(names ! i, names ! j, E ! i ! j) | i j.
            i < length names \<and> j < length names}"
      using set_stack[OF lenE rowsE] by (simp add: M_def)
    then show ?thesis
      using dist unfolding setT by (auto simp: nth_eq_iff_index_eq)
  qed
  moreover have "sorted_wrt (\<lambda>(a, b, d) (a', b', d'). a < a' \<or> (a = a' \<and> d \<le> d')) T"
    by (rule sorted_pairs) (simp add: T_def)
  ultimately show ?thesis
    using dm cp sh(3,4) len noself dpairs unfolding M_def by blast
qed

theorem distance_matrix_and_pairwise_table_witness:
  "getitem three_las ''UTLA22NM'' = Inr [Str ''Harrow'', Str ''Leeds'', Str ''Reading'']
   \<and> [Str ''Harrow'', Str ''Leeds'', Str ''Reading''] \<noteq> []
   \<and> distinct [Str ''Harrow'', Str ''Leeds'', Str ''Reading'']
   \<and> comparable [Str ''Harrow'', Str ''Leeds'', Str ''Reading'']
   \<and> numeric_rows (length [Str ''Harrow'', Str ''Leeds'', Str ''Reading''])
         (drop_columns three_las [''UTLA22CD'', ''UTLA22NM'']) = Inr [[0], [0], [1]]
   \<and> (\<exists>E T. dist_matrix euclidean three_las ''UTLA22CD'' ''UTLA22NM''
                 = Inr \<lparr>labels = [Str ''Harrow'', Str ''Leeds'', Str ''Reading''], entries = E\<rparr>
           \<and> create_pairwise_distance_df
                 \<lparr>labels = [Str ''Harrow'', Str ''Leeds'', Str ''Reading''], entries = E\<rparr> = Inr T
           \<and> length T = 6
           \<and> distinct (map (\<lambda>(a, b, d). (a, b)) T))"
proof -
  let ?names = "[Str ''Harrow'', Str ''Leeds'', Str ''Reading'']"
  have h1: "getitem three_las ''UTLA22NM'' = Inr ?names"
    by (simp add: three_las_def getitem_def matching_def setitem_def columns_def)
  have h2: "?names \<noteq> []" by simp
  have h3: "distinct ?names" by simp
  have h4: "comparable ?names" by (simp add: comparable_def)
  have h5: "numeric_rows (length ?names) (drop_columns three_las [''UTLA22CD'', ''UTLA22NM''])
              = Inr [[0], [0], [1]]"
    by (simp add: three_las_def numeric_rows_def drop_columns_def upt_rec)
  from distance_matrix_and_pairwise_table [OF h1 h2 h3 h4 h5, of euclidean]
  obtain E where "\<exists>T. dist_matrix euclidean three_las ''UTLA22CD'' ''UTLA22NM''
                   = Inr \<lparr>labels = ?names, entries = E\<rparr>
           \<and> create_pairwise_distance_df \<lparr>labels = ?names, entries = E\<rparr> = Inr T
           \<and> (\<forall>i < length ?names. \<forall>j < length ?names. E ! i ! j = E ! j ! i)
           \<and> (\<forall>i < length ?names. E ! i ! i = 0)
           \<and> length T = length ?names * (length ?names - 1)
           \<and> (\<forall>(a, b, d) \<in> set T. a \<noteq> b)
           \<and> distinct (map (\<lambda>(a, b, d). (a, b)) T)
           \<and> set T = {(?names ! i, ?names ! j, E ! i ! j) | i j.
                        i < length ?names \<and> j < length ?names \<and> i \<noteq> j}
           \<and> sorted_wrt (\<lambda>(a, b, d) (a', b', d'). a < a' \<or> (a = a' \<and> d \<le> d')) T" ..
  then obtain T where all: "dist_matrix euclidean three_las ''UTLA22CD'' ''UTLA22NM''
                   = Inr \<lparr>labels = ?names, entries = E\<rparr>
           \<and> create_pairwise_distance_df \<lparr>labels = ?names, entries = E\<rparr> = Inr T
           \<and> (\<forall>i < length ?names. \<forall>j < length ?names. E ! i ! j = E ! j ! i)
           \<and> (\<forall>i < length ?names. E ! i ! i = 0)
           \<and> length T = length ?names * (length ?names - 1)
           \<and> (\<forall>(a, b, d) \<in> set T. a \<noteq> b)
           \<and> distinct (map (\<lambda>(a, b, d). (a, b)) T)
           \<and> set T = {(?names ! i, ?names ! j, E ! i ! j) | i j.
                        i < length ?names \<and> j < length ?names \<and> i \<noteq> j}
           \<and> sorted_wrt (\<lambda>(a, b, d) (a', b', d'). a < a' \<or> (a = a' \<and> d \<le> d')) T" ..
  note dm = all[THEN conjunct1]
  note cp = all[THEN conjunct2, THEN conjunct1]
  note len = all[THEN conjunct2, THEN conjunct2, THEN conjunct2, THEN conjunct2, THEN conjunct1]
  note dp = all[THEN conjunct2, THEN conjunct2, THEN conjunct2, THEN conjunct2, THEN conjunct2,
      THEN conjunct2, THEN conjunct1]
  from len have l6: "length T = 6" by simp
  have "\<exists>E T. dist_matrix euclidean three_las ''UTLA22CD'' ''UTLA22NM''
                 = Inr \<lparr>labels = ?names, entries = E\<rparr>
           \<and> create_pairwise_distance_df \<lparr>labels = ?names, entries = E\<rparr> = Inr T
           \<and> length T = 6
           \<and> distinct (map (\<lambda>(a, b, d). (a, b)) T)"
    using dm cp l6 dp by blast
  with h1 h2 h3 h4 h5 show ?thesis by (intro conjI)
qed

subsection \<open>Peer ranking when another LA is at distance zero\<close>

text \<open>
  C1. The ranking loop drops the first of the \<open>k + 1\<close> nearest rows, taking it to be the LA
  itself. In \<open>three_las\<close> Harrow and Leeds have equal features, so in the column of Leeds
  both are at distance 0 and Harrow, the earlier row, comes first: Harrow is dropped and
  Leeds is written as the nearest peer of Leeds.
\<close>

theorem leeds_is_ranked_as_its_own_peer:
  "snd (calculate_distance euclidean [] three_las [''runs/a1'', ''runs/a1/output'']
          ''UTLA22CD'' ''UTLA22NM'' 1) = Inr ()
   \<and> map_of (fst (calculate_distance euclidean [] three_las [''runs/a1'', ''runs/a1/output'']
          ''UTLA22CD'' ''UTLA22NM'' 1)) (''output'', ''peers.csv'')
     = Some (PeersCsv [[Str ''Harrow'', Str ''Leeds''], [Str ''Leeds'', Str ''Leeds''],
                       [Str ''Reading'', Str ''Harrow'']])"
  by (simp add: calculate_distance_def three_las_def reorder_def columns_def getitem_def matching_def setitem_def columns_def folder_def
      dist_matrix_def drop_columns_def numeric_rows_def squareform_pdist_def euclidean_def Let_def
      upt_rec create_pairwise_distance_df_def stack_def comparable_def less_eq_cell_def
      less_eq_prod_def less_cell_def n_nearest_neighbours_array_def output_row_def nsmallest_def
      column_at_def final_output_def to_csv_def example_utlas_def OUTPUT_PATH_def)

subsection \<open>Frames\<close>

lemma columns_setitem:
  "columns (setitem df c v) = (if c \<in> set (columns df) then columns df else columns df @ [c])"
  by (auto simp: setitem_def columns_def case_prod_unfold)

lemma matching_setitem_other:
  "c' \<noteq> c \<Longrightarrow> matching (setitem df c v) c' = matching df c'"
proof -
  assume ne: "c' \<noteq> c"
  have "filter (\<lambda>(n, s). n = c') (map (\<lambda>(n, s). (n, if n = c then v else s)) df)
        = filter (\<lambda>(n, s). n = c') df"
    using ne by (induction df) auto
  with ne show ?thesis by (simp add: matching_def setitem_def)
qed

lemma getitem_setitem_other:
  "c' \<noteq> c \<Longrightarrow> getitem (setitem df c v) c' = getitem df c'"
  by (simp add: getitem_def matching_setitem_other)

lemma getitem_setitem_same:
  assumes "getitem df c = Inr col"
  shows "getitem (setitem df c v) c = Inr v"
proof -
  have m: "matching df c = [(c, col)]" using assms by (simp add: getitem_Inr_iff)
  have "filter (\<lambda>(n, s). n = c) (map (\<lambda>(n, s). (n, if n = c then v else s)) df)
        = map (\<lambda>(n, s). (n, v)) (filter (\<lambda>(n, s). n = c) df)"
    by (induction df) auto
  with m getitem_columns[OF assms] show ?thesis
    by (simp add: getitem_Inr_iff matching_def setitem_def)
qed

lemma getitem_setitem_new:
  assumes "c \<notin> set (columns df)"
  shows "getitem (setitem df c v) c = Inr v"
proof -
  from assms have "filter (\<lambda>(n, s). n = c) df = []"
    by (auto simp: filter_empty_conv columns_def rev_image_eqI)
  with assms show ?thesis by (simp add: getitem_Inr_iff matching_def setitem_def)
qed

subsection \<open>The transformer\<close>

lemma series_min_pos:
  "x \<noteq> [] \<Longrightarrow> (case series_min x of None \<Rightarrow> False | Some m \<Rightarrow> 0 < m) = (\<forall>v \<in> set x. 0 < v)"
proof (cases x)
  case Nil
  then show "x \<noteq> [] \<Longrightarrow> ?thesis" by simp
next
  case (Cons v vs)
  have "fold min vs v = Min (set (v # vs))" by (simp only: Min.set_eq_fold)
  then show ?thesis using Cons by (simp del: set_simps add: Min_gr_iff)
qed

lemma list_ex_nonpos:
  "list_ex (\<lambda>v. v \<le> 0) x = (\<not> (\<forall>v \<in> set x. (0::real) < v))"
  by (auto simp: list_ex_iff not_less)

lemma constant_sample:
  "list_all (\<lambda>v. v = hd x) x = (\<not> (\<exists>v \<in> set x. v \<noteq> hd x))"
  by (auto simp: list_all_iff)

lemma setitem_new:
  "c \<notin> set (columns df) \<Longrightarrow> setitem df c v = df @ [(c, v)]"
  by (simp add: setitem_def)

lemma transform_var_result:
  assumes col: "getitem df feature = Inr col"
    and x: "to_floats TypeError col = Inr x"
    and ne: "x \<noteq> []"
    and yj: "yeojohnson_normmax st x = Inr l1"
    and bc: "(boxcox_normmax st x = Inr l2 \<and> (\<exists>v \<in> set x. v \<noteq> hd x))
             \<or> \<not> (\<forall>v \<in> set x. 0 < v)"
    and fresh: "set (map ((@) feature) [''_yj'', ''_sqrr'', ''_log'', ''_squared'', ''_bc'',
                  ''_recip_sqrr'', ''_recip'']) \<inter> set (columns df) = {}"
  shows "transform_var st df feature
         = (df @ [(feature @ ''_yj'', map (\<lambda>v. Num (yeojohnson_transform st v l1)) x),
                  (feature @ ''_sqrr'', map (\<lambda>v. Num (np_power st v (1 / 2))) x),
                  (feature @ ''_log'', map (\<lambda>v. Num (np_log1p st v)) x),
                  (feature @ ''_squared'', map (\<lambda>v. Num (np_power st v 2)) x)]
               @ (if \<forall>v \<in> set x. 0 < v
                  then [(feature @ ''_bc'', map (\<lambda>v. Num (special_boxcox st v l2)) x),
                        (feature @ ''_recip_sqrr'', map (\<lambda>v. Num (np_power st v (- 1 / 2))) x),
                        (feature @ ''_recip'', map (\<lambda>v. Num (np_true_divide st 1 v)) x)]
                  else []),
            Inr (\<forall>v \<in> set x. 0 < v))"
proof (cases "\<forall>v \<in> set x. 0 < v")
  case True
  with bc have bc': "boxcox_normmax st x = Inr l2" and nc: "\<exists>v \<in> set x. v \<noteq> hd x" by simp_all
  show ?thesis
    using col x ne yj bc' nc fresh
    by (simp add: transform_var_def Let_def series_min_pos yeojohnson_def boxcox_def
        list_ex_nonpos constant_sample setitem_new columns_def True)
next
  case False
  show ?thesis
    using col x ne yj fresh
    by (simp add: transform_var_def Let_def series_min_pos yeojohnson_def boxcox_def
        list_ex_nonpos setitem_new columns_def False)
qed

lemma getitem_append:
  "getitem (df @ new) c
   = (case matching df c @ matching new c of
        [] \<Rightarrow> Inl KeyError | [(c', s)] \<Rightarrow> Inr s | _ \<Rightarrow> Inl ValueError)"
  by (simp add: getitem_def matching_def)

text \<open>
  C5, as the code has it. For a non-empty numeric feature column on which the Yeo-Johnson
  estimate succeeds, which - when all its values are positive - is not constant and lets the
  Box-Cox estimate succeed, and whose variant names are not columns of the frame already,
  \<^verbatim>\<open>_transform_var\<close> returns. It leaves the feature column as it is and appends four
  columns that hold, for each value \<open>v\<close> of the feature, the Yeo-Johnson transform,
  \<^verbatim>\<open>v ** 0.5\<close>, \<^verbatim>\<open>log1p(v)\<close> and \<^verbatim>\<open>v ** 2\<close>. Exactly when every value is greater than zero
  it appends three more with the Box-Cox transform, \<^verbatim>\<open>v ** -0.5\<close> and \<^verbatim>\<open>1 / v\<close>;
  otherwise the frame has no column of these three names. The flag it returns says whether
  every value is greater than zero.
\<close>

theorem transform_var_variants:
  assumes col: "getitem df feature = Inr col"
    and x: "to_floats TypeError col = Inr x"
    and ne: "x \<noteq> []"
    and yj: "yeojohnson_normmax st x = Inr l1"
    and bc: "(boxcox_normmax st x = Inr l2 \<and> (\<exists>v \<in> set x. v \<noteq> hd x))
             \<or> \<not> (\<forall>v \<in> set x. 0 < v)"
    and fresh: "set (map ((@) feature) [''_yj'', ''_sqrr'', ''_log'', ''_squared'', ''_bc'',
                  ''_recip_sqrr'', ''_recip'']) \<inter> set (columns df) = {}"
  shows "\<exists>df'. transform_var st df feature = (df', Inr (\<forall>v \<in> set x. 0 < v))
           \<and> columns df' = columns df @ map ((@) feature)
                 ([''_yj'', ''_sqrr'', ''_log'', ''_squared'']
                  @ (if \<forall>v \<in> set x. 0 < v then [''_bc'', ''_recip_sqrr'', ''_recip''] else []))
           \<and> getitem df' feature = Inr col
           \<and> getitem df' (feature @ ''_yj'')
               = Inr (map (\<lambda>v. Num (yeojohnson_transform st v l1)) x)
           \<and> getitem df' (feature @ ''_sqrr'') = Inr (map (\<lambda>v. Num (np_power st v (1 / 2))) x)
           \<and> getitem df' (feature @ ''_log'') = Inr (map (\<lambda>v. Num (np_log1p st v)) x)
           \<and> getitem df' (feature @ ''_squared'') = Inr (map (\<lambda>v. Num (np_power st v 2)) x)
           \<and> getitem df' (feature @ ''_bc'')
               = (if \<forall>v \<in> set x. 0 < v
                  then Inr (map (\<lambda>v. Num (special_boxcox st v l2)) x) else Inl KeyError)
           \<and> getitem df' (feature @ ''_recip_sqrr'')
               = (if \<forall>v \<in> set x. 0 < v
                  then Inr (map (\<lambda>v. Num (np_power st v (- 1 / 2))) x) else Inl KeyError)
           \<and> getitem df' (feature @ ''_recip'')
               = (if \<forall>v \<in> set x. 0 < v
                  then Inr (map (\<lambda>v. Num (np_true_divide st 1 v)) x) else Inl KeyError)"
proof -
  have m: "matching df feature = [(feature, col)]" using col by (simp add: getitem_Inr_iff)
  have f: "matching df (feature @ sfx) = []"
    if "sfx \<in> {''_yj'', ''_sqrr'', ''_log'', ''_squared'', ''_bc'', ''_recip_sqrr'', ''_recip''}"
    for sfx
  proof -
    from that fresh have "feature @ sfx \<notin> set (columns df)" by auto
    then show ?thesis by (auto simp: matching_def filter_empty_conv columns_def rev_image_eqI)
  qed
  note r = transform_var_result[OF col x ne yj bc fresh]
  show ?thesis
  proof (cases "\<forall>v \<in> set x. 0 < v")
    case True
    show ?thesis
      unfolding r
      by (rule exI, intro conjI, rule refl)
         (simp_all add: True getitem_append m f, simp_all add: matching_def columns_def)
  next
    case False
    show ?thesis
      unfolding r
      by (rule exI, intro conjI, rule refl)
         (simp_all add: False getitem_append m f, simp_all add: matching_def columns_def)
  qed
qed

theorem transform_var_variants_witness:
  "getitem positive_feature ''transformation_1'' = Inr [Num 2, Num 4, Num 6]
   \<and> to_floats TypeError [Num 2, Num 4, Num 6] = Inr [2, 4, 6]
   \<and> [2, 4, 6 :: real] \<noteq> []
   \<and> yeojohnson_normmax sample_stats [2, 4, 6] = Inr 1
   \<and> boxcox_normmax sample_stats [2, 4, 6] = Inr 1
   \<and> (\<exists>v \<in> set [2, 4, 6 :: real]. v \<noteq> hd [2, 4, 6])
   \<and> set (map ((@) ''transformation_1'') [''_yj'', ''_sqrr'', ''_log'', ''_squared'', ''_bc'',
             ''_recip_sqrr'', ''_recip'']) \<inter> set (columns positive_feature) = {}
   \<and> (\<exists>df'. transform_var sample_stats positive_feature ''transformation_1'' = (df', Inr True)
          \<and> columns df' = [''index'', ''transformation_1'', ''transformation_1_yj'',
               ''transformation_1_sqrr'', ''transformation_1_log'', ''transformation_1_squared'',
               ''transformation_1_bc'', ''transformation_1_recip_sqrr'', ''transformation_1_recip'']
          \<and> getitem df' ''transformation_1'' = Inr [Num 2, Num 4, Num 6]
          \<and> getitem df' ''transformation_1_yj'' = Inr [Num 2, Num 4, Num 6]
          \<and> getitem df' ''transformation_1_sqrr'' = Inr [Num (sqrt 2), Num 2, Num (sqrt 6)]
          \<and> getitem df' ''transformation_1_log'' = Inr [Num (ln 3), Num (ln 5), Num (ln 7)]
          \<and> getitem df' ''transformation_1_squared'' = Inr [Num 4, Num 16, Num 36]
          \<and> getitem df' ''transformation_1_bc'' = Inr [Num 1, Num 3, Num 5]
          \<and> getitem df' ''transformation_1_recip'' = Inr [Num (1 / 2), Num (1 / 4), Num (1 / 6)])"
proof -
  have h1: "getitem positive_feature ''transformation_1'' = Inr [Num 2, Num 4, Num 6]"
    by (simp add: positive_feature_def getitem_def matching_def)
  have h2: "to_floats TypeError [Num 2, Num 4, Num 6] = Inr [2, 4, 6]" by simp
  have h3: "[2, 4, 6 :: real] \<noteq> []" by simp
  have h4: "yeojohnson_normmax sample_stats [2, 4, 6] = Inr 1" by (simp add: sample_stats_def)
  have h5: "boxcox_normmax sample_stats [2, 4, 6] = Inr 1" by (simp add: sample_stats_def)
  have h5': "\<exists>v \<in> set [2, 4, 6 :: real]. v \<noteq> hd [2, 4, 6]" by simp
  have h6: "set (map ((@) ''transformation_1'') [''_yj'', ''_sqrr'', ''_log'', ''_squared'', ''_bc'',
             ''_recip_sqrr'', ''_recip'']) \<inter> set (columns positive_feature) = {}"
    by (simp add: positive_feature_def columns_def)
  have pos: "\<forall>v \<in> set [2, 4, 6 :: real]. 0 < v" by simp
  from transform_var_variants [OF h1 h2 h3 h4 disjI1 [OF conjI [OF h5 h5']] h6]
  obtain df' where all:
      "transform_var sample_stats positive_feature ''transformation_1''
         = (df', Inr (\<forall>v \<in> set [2, 4, 6 :: real]. 0 < v))
       \<and> columns df' = columns positive_feature @ map ((@) ''transformation_1'')
                 ([''_yj'', ''_sqrr'', ''_log'', ''_squared'']
                  @ (if \<forall>v \<in> set [2, 4, 6 :: real]. 0 < v
                     then [''_bc'', ''_recip_sqrr'', ''_recip''] else []))
       \<and> getitem df' ''transformation_1'' = Inr [Num 2, Num 4, Num 6]
       \<and> getitem df' (''transformation_1'' @ ''_yj'')
           = Inr (map (\<lambda>v. Num (yeojohnson_transform sample_stats v 1)) [2, 4, 6])
       \<and> getitem df' (''transformation_1'' @ ''_sqrr'')
           = Inr (map (\<lambda>v. Num (np_power sample_stats v (1 / 2))) [2, 4, 6])
       \<and> getitem df' (''transformation_1'' @ ''_log'')
           = Inr (map (\<lambda>v. Num (np_log1p sample_stats v)) [2, 4, 6])
       \<and> getitem df' (''transformation_1'' @ ''_squared'')
           = Inr (map (\<lambda>v. Num (np_power sample_stats v 2)) [2, 4, 6])
       \<and> getitem df' (''transformation_1'' @ ''_bc'')
           = (if \<forall>v \<in> set [2, 4, 6 :: real]. 0 < v
              then Inr (map (\<lambda>v. Num (special_boxcox sample_stats v 1)) [2, 4, 6])
              else Inl KeyError)
       \<and> getitem df' (''transformation_1'' @ ''_recip_sqrr'')
           = (if \<forall>v \<in> set [2, 4, 6 :: real]. 0 < v
              then Inr (map (\<lambda>v. Num (np_power sample_stats v (- 1 / 2))) [2, 4, 6])
              else Inl KeyError)
       \<and> getitem df' (''transformation_1'' @ ''_recip'')
           = (if \<forall>v \<in> set [2, 4, 6 :: real]. 0 < v
              then Inr (map (\<lambda>v. Num (np_true_divide sample_stats 1 v)) [2, 4, 6])
              else Inl KeyError)" ..
  have four: "sqrt 4 = 2" using real_sqrt_abs[of 2] by simp
  have t: "\<exists>df'. transform_var sample_stats positive_feature ''transformation_1'' = (df', Inr True)
          \<and> columns df' = [''index'', ''transformation_1'', ''transformation_1_yj'',
               ''transformation_1_sqrr'', ''transformation_1_log'', ''transformation_1_squared'',
               ''transformation_1_bc'', ''transformation_1_recip_sqrr'', ''transformation_1_recip'']
          \<and> getitem df' ''transformation_1'' = Inr [Num 2, Num 4, Num 6]
          \<and> getitem df' ''transformation_1_yj'' = Inr [Num 2, Num 4, Num 6]
          \<and> getitem df' ''transformation_1_sqrr'' = Inr [Num (sqrt 2), Num 2, Num (sqrt 6)]
          \<and> getitem df' ''transformation_1_log'' = Inr [Num (ln 3), Num (ln 5), Num (ln 7)]
          \<and> getitem df' ''transformation_1_squared'' = Inr [Num 4, Num 16, Num 36]
          \<and> getitem df' ''transformation_1_bc'' = Inr [Num 1, Num 3, Num 5]
          \<and> getitem df' ''transformation_1_recip'' = Inr [Num (1 / 2), Num (1 / 4), Num (1 / 6)]"
    apply (rule exI[of _ df'])
    using all
    by (simp add: positive_feature_def columns_def sample_stats_def exact_power_def
        exact_yeojohnson_transform_def exact_boxcox_def four)
  from h1 h2 h3 h4 h5 h5' h6 t show ?thesis by (intro conjI)
qed

text \<open>
  C5 as stated fails on a constant positive column. Every value of \<open>flat\<close> is greater than
  zero, but scipy's \<^verbatim>\<open>boxcox\<close> refuses a constant sample: the call ends in ValueError after
  the first four variants have been assigned, so that no Box-Cox or reciprocal column is
  produced and no flag is returned.
\<close>

theorem transform_var_constant_positive_fails:
  "getitem flat_feature ''flat'' = Inr [Num 3, Num 3, Num 3]
   \<and> transform_var sample_stats flat_feature ''flat''
       = (flat_feature @ [(''flat_yj'', [Num 3, Num 3, Num 3]),
                          (''flat_sqrr'', [Num (sqrt 3), Num (sqrt 3), Num (sqrt 3)]),
                          (''flat_log'', [Num (ln 4), Num (ln 4), Num (ln 4)]),
                          (''flat_squared'', [Num 9, Num 9, Num 9])],
          Inl ValueError)"
  by (simp add: flat_feature_def getitem_def matching_def setitem_def columns_def
      transform_var_def yeojohnson_def boxcox_def sample_stats_def exact_power_def
      exact_yeojohnson_transform_def Let_def)

subsection \<open>The Gaussian selector\<close>

lemma max_from_first:
  "\<exists>ys zs. best # ps = ys @ max_from best ps # zs
     \<and> (\<forall>q \<in> set ys. snd q < snd (max_from best ps))
     \<and> (\<forall>q \<in> set zs. snd q \<le> snd (max_from best ps))"
proof (induction ps arbitrary: best)
  case Nil
  show ?case by (rule exI[of _ "[]"]) simp
next
  case (Cons cp ps)
  show ?case
  proof (cases "snd best < snd cp")
    case True
    define mx where "mx = max_from cp ps"
    from True have m: "max_from best (cp # ps) = mx" by (simp add: mx_def)
    from Cons.IH[of cp, folded mx_def]
    obtain ys where "\<exists>zs. cp # ps = ys @ mx # zs
      \<and> (\<forall>q \<in> set ys. snd q < snd mx) \<and> (\<forall>q \<in> set zs. snd q \<le> snd mx)" ..
    then obtain zs where all: "cp # ps = ys @ mx # zs
      \<and> (\<forall>q \<in> set ys. snd q < snd mx) \<and> (\<forall>q \<in> set zs. snd q \<le> snd mx)" ..
    note eq = all[THEN conjunct1] and lt = all[THEN conjunct2, THEN conjunct1]
      and le = all[THEN conjunct2, THEN conjunct2]
    have "snd cp \<le> snd mx"
      using eq lt by (cases ys) auto
    with True have b: "snd best < snd mx" by simp
    show ?thesis
      unfolding m
    proof (rule exI[of _ "best # ys"], rule exI[of _ zs], intro conjI)
      show "best # cp # ps = (best # ys) @ mx # zs"
        using eq by simp
      show "\<forall>q \<in> set (best # ys). snd q < snd mx"
        using lt b by simp
      show "\<forall>q \<in> set zs. snd q \<le> snd mx" by (rule le)
    qed
  next
    case False
    define mx where "mx = max_from best ps"
    from False have m: "max_from best (cp # ps) = mx" by (simp add: mx_def)
    from Cons.IH[of best, folded mx_def]
    obtain ys where "\<exists>zs. best # ps = ys @ mx # zs
      \<and> (\<forall>q \<in> set ys. snd q < snd mx) \<and> (\<forall>q \<in> set zs. snd q \<le> snd mx)" ..
    then obtain zs where all: "best # ps = ys @ mx # zs
      \<and> (\<forall>q \<in> set ys. snd q < snd mx) \<and> (\<forall>q \<in> set zs. snd q \<le> snd mx)" ..
    note eq = all[THEN conjunct1] and lt = all[THEN conjunct2, THEN conjunct1]
      and le = all[THEN conjunct2, THEN conjunct2]
    show ?thesis
    proof (cases ys)
      case Nil
      with eq have mb: "mx = best" and zs: "zs = ps" by simp_all
      show ?thesis
        unfolding m mb
      proof (rule exI[of _ "[]"], rule exI[of _ "cp # ps"], intro conjI)
        show "best # cp # ps = [] @ best # cp # ps" by simp
        show "\<forall>q \<in> set []. snd q < snd best" by simp
        show "\<forall>q \<in> set (cp # ps). snd q \<le> snd best"
          using False le[unfolded mb zs] by simp
      qed
    next
      case (Cons y ys')
      with eq have y: "y = best" and ps: "ps = ys' @ mx # zs" by simp_all
      from lt Cons y have "snd best < snd mx" by simp
      with False have c: "snd cp < snd mx" by simp
      show ?thesis
        unfolding m
      proof (rule exI[of _ "best # cp # ys'"], rule exI[of _ zs], intro conjI)
        show "best # cp # ps = (best # cp # ys') @ mx # zs"
          using ps by simp
        show "\<forall>q \<in> set (best # cp # ys'). snd q < snd mx"
          using lt c Cons y by simp
        show "\<forall>q \<in> set zs. snd q \<le> snd mx" by (rule le)
      qed
    qed
  qed
qed

lemma p_values_tested:
  assumes "list_all (\<lambda>(c, col). c \<in> set key_columns
             \<or> (\<exists>x p. to_floats ValueError col = Inr x \<and> shapiro_pvalue st x = Inr p)) df"
  shows "\<exists>ps. p_values st key_columns df = Inr ps
           \<and> list_all2 (\<lambda>cp ccol. fst cp = fst ccol
                 \<and> (\<exists>x. to_floats ValueError (snd ccol) = Inr x
                        \<and> shapiro_pvalue st x = Inr (snd cp)))
               ps (filter (\<lambda>(c, col). c \<notin> set key_columns) df)"
  using assms
proof (induction df)
  case Nil
  then show ?case by simp
next
  case (Cons a df)
  obtain column col where a: "a = (column, col)" by (cases a)
  from Cons obtain ps where ps: "p_values st key_columns df = Inr ps"
    and all2: "list_all2 (\<lambda>cp ccol. fst cp = fst ccol
                 \<and> (\<exists>x. to_floats ValueError (snd ccol) = Inr x
                        \<and> shapiro_pvalue st x = Inr (snd cp)))
               ps (filter (\<lambda>(c, col). c \<notin> set key_columns) df)"
    by auto
  show ?case
  proof (cases "column \<in> set key_columns")
    case True
    with a ps all2 show ?thesis by simp
  next
    case False
    with Cons.prems a obtain x p where "to_floats ValueError col = Inr x"
      and "shapiro_pvalue st x = Inr p" by auto
    with False a ps all2 show ?thesis by simp
  qed
qed

lemma list_all2_partner:
  "list_all2 R xs ys \<Longrightarrow> y \<in> set ys \<Longrightarrow> \<exists>x \<in> set xs. R x y"
  by (induction rule: list_all2_induct) auto

lemma get_best_result:
  assumes dist: "distinct (columns df)"
    and tested: "list_all (\<lambda>(c, col). c \<in> set key_columns
             \<or> (\<exists>x p. to_floats ValueError col = Inr x \<and> shapiro_pvalue st x = Inr p)) df"
    and some: "\<exists>c \<in> set (columns df). c \<notin> set key_columns"
  shows "\<exists>before c col after x p.
           filter (\<lambda>(c, col). c \<notin> set key_columns) df = before @ (c, col) # after
         \<and> to_floats ValueError col = Inr x \<and> shapiro_pvalue st x = Inr p
         \<and> (\<forall>(c', col') \<in> set before. \<exists>x' p'. to_floats ValueError col' = Inr x'
               \<and> shapiro_pvalue st x' = Inr p' \<and> p' < p)
         \<and> (\<forall>(c', col') \<in> set after. \<exists>x' p'. to_floats ValueError col' = Inr x'
               \<and> shapiro_pvalue st x' = Inr p' \<and> p' \<le> p)
         \<and> get_best_gaussian_transformation st df feature key_columns
             = (setitem df (feature @ ''_best'') col, Inr ())"
proof -
  let ?R = "\<lambda>cp ccol. fst cp = fst ccol
                 \<and> (\<exists>x. to_floats ValueError (snd ccol) = Inr x
                        \<and> shapiro_pvalue st x = Inr (snd (cp :: string \<times> real)))"
  let ?cands = "filter (\<lambda>(c, col). c \<notin> set key_columns) df"
  from p_values_tested[OF tested] obtain ps where pv: "p_values st key_columns df = Inr ps"
    and all2: "list_all2 ?R ps ?cands" by blast
  from some have "?cands \<noteq> []" by (auto simp: filter_empty_conv columns_def)
  with all2 have "ps \<noteq> []" by auto
  then obtain cp r where ps: "ps = cp # r" by (cases ps) auto
  define m where "m = max_from cp r"
  from max_from_first[of cp r, folded m_def ps]
  obtain ys where "\<exists>zs. ps = ys @ m # zs \<and> (\<forall>q \<in> set ys. snd q < snd m)
      \<and> (\<forall>q \<in> set zs. snd q \<le> snd m)" ..
  then obtain zs where all: "ps = ys @ m # zs \<and> (\<forall>q \<in> set ys. snd q < snd m)
      \<and> (\<forall>q \<in> set zs. snd q \<le> snd m)" ..
  note eq = all[THEN conjunct1] and lt = all[THEN conjunct2, THEN conjunct1]
    and le = all[THEN conjunct2, THEN conjunct2]
  from all2 eq have "list_all2 ?R (ys @ m # zs) ?cands" by simp
  then obtain us vs' where c1: "?cands = us @ vs'" and a1: "list_all2 ?R ys us"
    and a2: "list_all2 ?R (m # zs) vs'"
    by (auto simp: list_all2_append1)
  from a2 obtain ccol vs where vs': "vs' = ccol # vs" and rm: "?R m ccol"
    and a3: "list_all2 ?R zs vs"
    by (auto simp: list_all2_Cons1)
  obtain c col where ccol: "ccol = (c, col)" by (cases ccol)
  from rm ccol obtain x where fm: "fst m = c" and x: "to_floats ValueError col = Inr x"
    and p: "shapiro_pvalue st x = Inr (snd m)" by auto
  have split: "?cands = us @ (c, col) # vs" using c1 vs' ccol by simp
  have "(c, col) \<in> set ?cands" by (subst split) simp
  then have in_df: "(c, col) \<in> set df" by simp
  have gi: "getitem df (fst m) = Inr col" using getitem_distinct[OF dist in_df] fm by simp
  have best: "get_best_gaussian_transformation st df feature key_columns
          = (setitem df (feature @ ''_best'') col, Inr ())"
    using pv gi by (simp add: get_best_gaussian_transformation_def max_by_value_def ps m_def)
  have before: "\<forall>(c', col') \<in> set us. \<exists>x' p'. to_floats ValueError col' = Inr x'
               \<and> shapiro_pvalue st x' = Inr p' \<and> p' < snd m"
  proof (intro ballI, clarify)
    fix c' col' assume "(c', col') \<in> set us"
    from list_all2_partner[OF a1 this] obtain q where q: "q \<in> set ys" and r: "?R q (c', col')"
      by blast
    from lt q have "snd q < snd m" by simp
    with r show "\<exists>x' p'. to_floats ValueError col' = Inr x'
               \<and> shapiro_pvalue st x' = Inr p' \<and> p' < snd m" by auto
  qed
  have after: "\<forall>(c', col') \<in> set vs. \<exists>x' p'. to_floats ValueError col' = Inr x'
               \<and> shapiro_pvalue st x' = Inr p' \<and> p' \<le> snd m"
  proof (intro ballI, clarify)
    fix c' col' assume "(c', col') \<in> set vs"
    from list_all2_partner[OF a3 this] obtain q where q: "q \<in> set zs" and r: "?R q (c', col')"
      by blast
    from le q have "snd q \<le> snd m" by simp
    with r show "\<exists>x' p'. to_floats ValueError col' = Inr x'
               \<and> shapiro_pvalue st x' = Inr p' \<and> p' \<le> snd m" by auto
  qed
  show ?thesis
    apply (rule exI[of _ us], rule exI[of _ c], rule exI[of _ col], rule exI[of _ vs],
        rule exI[of _ x], rule exI[of _ "snd m"])
    using split x p before after best by (intro conjI)
qed

text \<open>
  C4. The candidates are the columns that are not key columns, in column order. When the
  columns have distinct names, the normality test succeeds on every candidate and there is at
  least one, the selector returns, and the column it stores as \<open>feature_best\<close> is a candidate
  whose Shapiro-Wilk p-value \<open>p\<close> is maximal: every candidate before it in column order has a
  strictly smaller p-value and every candidate after it a p-value that is not larger. So
  among candidates that tie on the maximum the first in column order is taken. No other
  column of the frame changes. For a frame built by \<^verbatim>\<open>_transform_var\<close> the column order is
  identity, yj, sqrr, log, squared, then bc, recip_sqrr, recip when present.
\<close>

theorem get_best_gaussian_transformation_first_max:
  assumes dist: "distinct (columns df)"
    and tested: "list_all (\<lambda>(c, col). c \<in> set key_columns
             \<or> (\<exists>x p. to_floats ValueError col = Inr x \<and> shapiro_pvalue st x = Inr p)) df"
    and some: "\<exists>c \<in> set (columns df). c \<notin> set key_columns"
  shows "\<exists>before c col after x p df'.
           filter (\<lambda>(c, col). c \<notin> set key_columns) df = before @ (c, col) # after
         \<and> to_floats ValueError col = Inr x \<and> shapiro_pvalue st x = Inr p
         \<and> (\<forall>(c', col') \<in> set before. \<exists>x' p'. to_floats ValueError col' = Inr x'
               \<and> shapiro_pvalue st x' = Inr p' \<and> p' < p)
         \<and> (\<forall>(c', col') \<in> set after. \<exists>x' p'. to_floats ValueError col' = Inr x'
               \<and> shapiro_pvalue st x' = Inr p' \<and> p' \<le> p)
         \<and> get_best_gaussian_transformation st df feature key_columns = (df', Inr ())
         \<and> df' = setitem df (feature @ ''_best'') col
         \<and> getitem df' (feature @ ''_best'') = Inr col
         \<and> (\<forall>n. n \<noteq> feature @ ''_best'' \<longrightarrow> getitem df' n = getitem df n)"
proof -
  from get_best_result[OF dist tested some, of feature]
  obtain before c col after x p where
    split: "filter (\<lambda>(c, col). c \<notin> set key_columns) df = before @ (c, col) # after"
    and x: "to_floats ValueError col = Inr x" and p: "shapiro_pvalue st x = Inr p"
    and lt: "\<forall>(c', col') \<in> set before. \<exists>x' p'. to_floats ValueError col' = Inr x'
               \<and> shapiro_pvalue st x' = Inr p' \<and> p' < p"
    and le: "\<forall>(c', col') \<in> set after. \<exists>x' p'. to_floats ValueError col' = Inr x'
               \<and> shapiro_pvalue st x' = Inr p' \<and> p' \<le> p"
    and best: "get_best_gaussian_transformation st df feature key_columns
             = (setitem df (feature @ ''_best'') col, Inr ())"
    by blast
  have same: "getitem (setitem df (feature @ ''_best'') col) (feature @ ''_best'') = Inr col"
  proof (cases "feature @ ''_best'' \<in> set (columns df)")
    case True
    then obtain old where "(feature @ ''_best'', old) \<in> set df" by (auto simp: columns_def)
    from getitem_setitem_same[OF getitem_distinct[OF dist this]] show ?thesis .
  next
    case False
    then show ?thesis by (rule getitem_setitem_new)
  qed
  have other: "\<forall>n. n \<noteq> feature @ ''_best'' \<longrightarrow>
       getitem (setitem df (feature @ ''_best'') col) n = getitem df n"
    by (simp add: getitem_setitem_other)
  show ?thesis
    apply (rule exI[of _ before], rule exI[of _ c], rule exI[of _ col], rule exI[of _ after],
        rule exI[of _ x], rule exI[of _ p], rule exI[of _ "setitem df (feature @ ''_best'') col"])
    using split x p lt le best same other by (intro conjI refl)
qed

theorem get_best_gaussian_transformation_first_max_witness:
  "distinct (columns three_candidates)
   \<and> list_all (\<lambda>(c, col). c \<in> set [''index'']
         \<or> (\<exists>x p. to_floats ValueError col = Inr x
                \<and> shapiro_pvalue largest_value_stats x = Inr p)) three_candidates
   \<and> (\<exists>c \<in> set (columns three_candidates). c \<notin> set [''index''])
   \<and> shapiro_pvalue largest_value_stats [1, 2, 3] = Inr (3 / 10)
   \<and> shapiro_pvalue largest_value_stats [0, 5, 1] = Inr (5 / 10)
   \<and> shapiro_pvalue largest_value_stats [5, 0, 2] = Inr (5 / 10)
   \<and> (\<exists>before c col after x p df'.
           filter (\<lambda>(c, col). c \<notin> set [''index'']) three_candidates = before @ (c, col) # after
         \<and> to_floats ValueError col = Inr x \<and> shapiro_pvalue largest_value_stats x = Inr p
         \<and> (\<forall>(c', col') \<in> set before. \<exists>x' p'. to_floats ValueError col' = Inr x'
               \<and> shapiro_pvalue largest_value_stats x' = Inr p' \<and> p' < p)
         \<and> (\<forall>(c', col') \<in> set after. \<exists>x' p'. to_floats ValueError col' = Inr x'
               \<and> shapiro_pvalue largest_value_stats x' = Inr p' \<and> p' \<le> p)
         \<and> get_best_gaussian_transformation largest_value_stats three_candidates
              ''transformation'' [''index''] = (df', Inr ())
         \<and> df' = setitem three_candidates (''transformation'' @ ''_best'') col
         \<and> getitem df' (''transformation'' @ ''_best'') = Inr col
         \<and> (\<forall>n. n \<noteq> ''transformation'' @ ''_best'' \<longrightarrow>
               getitem df' n = getitem three_candidates n))
   \<and> get_best_gaussian_transformation largest_value_stats three_candidates
        ''transformation'' [''index'']
       = (three_candidates @ [(''transformation_best'', [Num 0, Num 5, Num 1])], Inr ())"
proof -
  have h1: "distinct (columns three_candidates)"
    by (simp add: three_candidates_def columns_def)
  have h2: "list_all (\<lambda>(c, col). c \<in> set [''index'']
         \<or> (\<exists>x p. to_floats ValueError col = Inr x
                \<and> shapiro_pvalue largest_value_stats x = Inr p)) three_candidates"
  proof -
    have "shapiro_pvalue largest_value_stats x = Inr (fold max x 0 / 10)" for x
      by (simp add: largest_value_stats_def)
    then have "\<exists>p. shapiro_pvalue largest_value_stats x = Inr p" for x
      by (rule exI)
    then show ?thesis by (simp add: three_candidates_def)
  qed
  have h3: "\<exists>c \<in> set (columns three_candidates). c \<notin> set [''index'']"
    by (simp add: three_candidates_def columns_def)
  have p1: "shapiro_pvalue largest_value_stats [1, 2, 3] = Inr (3 / 10)"
    by (simp add: largest_value_stats_def sample_stats_def)
  have p2: "shapiro_pvalue largest_value_stats [0, 5, 1] = Inr (5 / 10)"
    by (simp add: largest_value_stats_def sample_stats_def)
  have p3: "shapiro_pvalue largest_value_stats [5, 0, 2] = Inr (5 / 10)"
    by (simp add: largest_value_stats_def sample_stats_def)
  have e: "get_best_gaussian_transformation largest_value_stats three_candidates
        ''transformation'' [''index'']
       = (three_candidates @ [(''transformation_best'', [Num 0, Num 5, Num 1])], Inr ())"
    by (simp add: get_best_gaussian_transformation_def three_candidates_def
        largest_value_stats_def sample_stats_def
        max_by_value_def getitem_def matching_def setitem_def columns_def)
  note t = get_best_gaussian_transformation_first_max [OF h1 h2 h3, of "''transformation''"]
  from h1 h2 h3 p1 p2 p3 t e show ?thesis by (intro conjI)
qed

subsection \<open>The normaliser\<close>

lemma series_min_Min: "x \<noteq> [] \<Longrightarrow> series_min x = Some (Min (set x))"
  by (cases x) (auto simp del: set_simps simp add: Min.set_eq_fold)

lemma series_max_Max: "x \<noteq> [] \<Longrightarrow> series_max x = Some (Max (set x))"
  by (cases x) (auto simp del: set_simps simp add: Max.set_eq_fold)

lemma scale_shift:
  "(r::real) \<noteq> 0 \<Longrightarrow> v * (w / r) + (0 - mn * (w / r)) = (v - mn) / r * w"
  by (simp add: field_simps)

lemma min_max_scaler_values:
  assumes w: "0 < weight" and x: "to_floats ValueError col = Inr x" and ne: "x \<noteq> []"
  shows "\<exists>y. min_max_scaler st weight col = Inr (map Num y) \<and> length y = length x
           \<and> y = (let data_range = np_subtract st (Max (set x)) (Min (set x));
                       scale = np_true_divide st (np_subtract st weight 0)
                                 (if data_range = 0 \<or> data_range < constant_threshold st
                                  then 1 else data_range);
                       shift = np_subtract st 0 (np_multiply st (Min (set x)) scale)
                   in map (\<lambda>v. np_add st (np_multiply st v scale) shift) x)
           \<and> ((\<forall>a. np_add st a (np_subtract st 0 a) = 0) \<longrightarrow>
                 (\<forall>i < length x. x ! i = Min (set x) \<longrightarrow> y ! i = 0)
                 \<and> (Max (set x) = Min (set x) \<longrightarrow> y = map (\<lambda>v. 0) x))
           \<and> (np_add st = (+) \<and> np_subtract st = (-) \<and> np_multiply st = (*)
                \<and> np_true_divide st = (/)
                \<and> \<not> (0 < Max (set x) - Min (set x)
                       \<and> Max (set x) - Min (set x) < constant_threshold st) \<longrightarrow>
                 y = map (\<lambda>v. if Max (set x) = Min (set x) then 0
                               else (v - Min (set x)) / (Max (set x) - Min (set x)) * weight) x)"
proof -
  let ?mn = "Min (set x)" and ?mx = "Max (set x)"
  define data_range where "data_range = np_subtract st ?mx ?mn"
  define scale where "scale = np_true_divide st (np_subtract st weight 0)
       (if data_range = 0 \<or> data_range < constant_threshold st then 1 else data_range)"
  define shift where "shift = np_subtract st 0 (np_multiply st ?mn scale)"
  define y where "y = map (\<lambda>v. np_add st (np_multiply st v scale) shift) x"
  have r: "min_max_scaler st weight col = Inr (map Num y)"
    using w x ne
    by (simp add: min_max_scaler_def series_min_Min series_max_Max Let_def y_def shift_def
        scale_def data_range_def comp_def)
  have len: "length y = length x" by (simp add: y_def)
  have bounds: "?mn \<le> v \<and> v \<le> ?mx" if "v \<in> set x" for v using that by simp
  have low: "(\<forall>i < length x. x ! i = ?mn \<longrightarrow> y ! i = 0)
             \<and> (?mx = ?mn \<longrightarrow> y = map (\<lambda>v. 0) x)"
    if a: "\<forall>a. np_add st a (np_subtract st 0 a) = 0"
  proof (intro conjI allI impI)
    fix i assume "i < length x" and "x ! i = ?mn"
    then show "y ! i = 0" using a by (simp add: y_def shift_def)
  next
    assume eq: "?mx = ?mn"
    have "np_add st (np_multiply st v scale) shift = 0" if "v \<in> set x" for v
    proof -
      from bounds[OF that] eq have "v = ?mn" by simp
      then show ?thesis using a by (simp add: shift_def)
    qed
    then show "y = map (\<lambda>v. 0) x" by (simp add: y_def)
  qed
  have exact: "y = map (\<lambda>v. if ?mx = ?mn then 0 else (v - ?mn) / (?mx - ?mn) * weight) x"
    if e: "np_add st = (+) \<and> np_subtract st = (-) \<and> np_multiply st = (*)
           \<and> np_true_divide st = (/)
           \<and> \<not> (0 < ?mx - ?mn \<and> ?mx - ?mn < constant_threshold st)"
  proof -
    have "?mn \<le> ?mx" using ne by simp
    have "v * scale + (0 - ?mn * scale)
          = (if ?mx = ?mn then 0 else (v - ?mn) / (?mx - ?mn) * weight)"
      if v: "v \<in> set x" for v
    proof (cases "?mx = ?mn")
      case True
      with bounds[OF v] have "v = ?mn" by simp
      with True show ?thesis by simp
    next
      case False
      with \<open>?mn \<le> ?mx\<close> have pos: "0 < ?mx - ?mn" by simp
      with e have "\<not> ?mx - ?mn < constant_threshold st" by simp
      with pos e have "scale = weight / (?mx - ?mn)"
        by (simp add: scale_def data_range_def)
      with scale_shift[of "?mx - ?mn" v weight ?mn] pos False show ?thesis by simp
    qed
    then show ?thesis using e by (simp add: y_def shift_def)
  qed
  have form: "y = (let data_range = np_subtract st ?mx ?mn;
                       scale = np_true_divide st (np_subtract st weight 0)
                                 (if data_range = 0 \<or> data_range < constant_threshold st
                                  then 1 else data_range);
                       shift = np_subtract st 0 (np_multiply st ?mn scale)
                   in map (\<lambda>v. np_add st (np_multiply st v scale) shift) x)"
    by (simp add: y_def shift_def scale_def data_range_def Let_def)
  from r len form low exact show ?thesis by blast
qed

lemma normalise_columns_ok:
  assumes "0 < weight" and "distinct cs"
    and "\<forall>c \<in> set cs. c \<notin> set key_columns \<longrightarrow>
           (\<exists>col x. getitem df c = Inr col \<and> to_floats ValueError col = Inr x \<and> x \<noteq> [])"
  shows "\<exists>df'. normalise_columns st weight key_columns cs df = (df', Inr ())
           \<and> columns df' = columns df
           \<and> (\<forall>c. getitem df' c =
                  (if c \<in> set cs \<and> c \<notin> set key_columns
                   then (case getitem df c of Inl e \<Rightarrow> Inl e
                         | Inr col \<Rightarrow> min_max_scaler st weight col)
                   else getitem df c))"
  using assms
proof (induction cs arbitrary: df)
  case Nil
  then show ?case by simp
next
  case (Cons column cs)
  show ?case
  proof (cases "column \<in> set key_columns")
    case True
    from Cons.prems have "\<exists>df'. normalise_columns st weight key_columns cs df = (df', Inr ())
           \<and> columns df' = columns df
           \<and> (\<forall>c. getitem df' c =
                  (if c \<in> set cs \<and> c \<notin> set key_columns
                   then (case getitem df c of Inl e \<Rightarrow> Inl e
                         | Inr col \<Rightarrow> min_max_scaler st weight col)
                   else getitem df c))"
      by (intro Cons.IH) auto
    with True show ?thesis by auto
  next
    case False
    with Cons.prems(3) obtain col x where col: "getitem df column = Inr col"
      and x: "to_floats ValueError col = Inr x" and ne: "x \<noteq> []"
      by auto
    from min_max_scaler_values[OF Cons.prems(1) x ne, of st]
    obtain y where "min_max_scaler st weight col = Inr (map Num y)" by blast
    then obtain scaled where sc: "min_max_scaler st weight col = Inr scaled" by blast
    define df1 where "df1 = setitem df column scaled"
    have g1: "getitem df1 c = (if c = column then Inr scaled else getitem df c)" for c
      using getitem_setitem_same[OF col] by (simp add: df1_def getitem_setitem_other)
    have c1: "columns df1 = columns df"
      using getitem_columns[OF col] by (simp add: df1_def columns_setitem)
    have notin: "column \<notin> set cs" and dcs: "distinct cs" using Cons.prems(2) by simp_all
    have "\<forall>c \<in> set cs. c \<notin> set key_columns \<longrightarrow>
           (\<exists>col x. getitem df1 c = Inr col \<and> to_floats ValueError col = Inr x \<and> x \<noteq> [])"
      using Cons.prems(3) notin by (auto simp: g1)
    from Cons.IH[OF Cons.prems(1) dcs this]
    obtain df' where r: "normalise_columns st weight key_columns cs df1 = (df', Inr ())"
      and c': "columns df' = columns df1"
      and g': "\<forall>c. getitem df' c =
                  (if c \<in> set cs \<and> c \<notin> set key_columns
                   then (case getitem df1 c of Inl e \<Rightarrow> Inl e
                         | Inr col \<Rightarrow> min_max_scaler st weight col)
                   else getitem df1 c)"
      by blast
    have "normalise_columns st weight key_columns (column # cs) df = (df', Inr ())"
      using False col sc r by (simp add: df1_def)
    moreover have "columns df' = columns df" using c' c1 by simp
    moreover have "\<forall>c. getitem df' c =
                  (if c \<in> set (column # cs) \<and> c \<notin> set key_columns
                   then (case getitem df c of Inl e \<Rightarrow> Inl e
                         | Inr col \<Rightarrow> min_max_scaler st weight col)
                   else getitem df c)"
      using g' notin False col sc by (auto simp: g1)
    ultimately show ?thesis by blast
  qed
qed

lemma normalise_var_result:
  assumes w: "0 < weight"
    and d: "distinct (columns df)"
    and num: "list_all (\<lambda>(c, col). c \<in> set key_columns
                \<or> (\<exists>x. to_floats ValueError col = Inr x \<and> x \<noteq> [])) df"
  shows "\<exists>df'. normalise_var st df weight key_columns = (df', Inr ())
           \<and> columns df' = columns df
           \<and> (\<forall>c col. (c, col) \<in> set df \<and> c \<in> set key_columns \<longrightarrow> getitem df' c = Inr col)
           \<and> (\<forall>c col. (c, col) \<in> set df \<and> c \<notin> set key_columns \<longrightarrow>
                  getitem df' c = min_max_scaler st weight col)"
proof -
  have gi: "getitem df c = Inr col" if "(c, col) \<in> set df" for c col
    using getitem_distinct[OF d that] .
  have pre: "\<forall>c \<in> set (columns df). c \<notin> set key_columns \<longrightarrow>
           (\<exists>col x. getitem df c = Inr col \<and> to_floats ValueError col = Inr x \<and> x \<noteq> [])"
  proof (intro ballI impI)
    fix c assume "c \<in> set (columns df)" and nk: "c \<notin> set key_columns"
    then obtain col where in_df: "(c, col) \<in> set df" by (auto simp: columns_def)
    with num nk obtain x where "to_floats ValueError col = Inr x" and "x \<noteq> []"
      by (auto simp: list_all_iff)
    with gi[OF in_df]
    show "\<exists>col x. getitem df c = Inr col \<and> to_floats ValueError col = Inr x \<and> x \<noteq> []"
      by blast
  qed
  from normalise_columns_ok[OF w d pre, of st]
  obtain df' where r: "normalise_var st df weight key_columns = (df', Inr ())"
    and c: "columns df' = columns df"
    and g: "\<forall>c. getitem df' c =
                  (if c \<in> set (columns df) \<and> c \<notin> set key_columns
                   then (case getitem df c of Inl e \<Rightarrow> Inl e
                         | Inr col \<Rightarrow> min_max_scaler st weight col)
                   else getitem df c)"
    unfolding normalise_var_def by blast
  have k: "\<forall>c col. (c, col) \<in> set df \<and> c \<in> set key_columns \<longrightarrow> getitem df' c = Inr col"
    using g gi by auto
  have s: "\<forall>c col. (c, col) \<in> set df \<and> c \<notin> set key_columns \<longrightarrow>
                  getitem df' c = min_max_scaler st weight col"
  proof (intro allI impI, elim conjE)
    fix c col
    assume in_df: "(c, col) \<in> set df" and nk: "c \<notin> set key_columns"
    have "c \<in> set (columns df)" using in_df by (force simp: columns_def)
    with g nk gi[OF in_df] show "getitem df' c = min_max_scaler st weight col" by simp
  qed
  from r c k s show ?thesis by blast
qed

text \<open>
  C3, as the code has it. For a weight \<open>w > 0\<close> and a frame whose columns have distinct
  names and, other than the key columns, are numeric and not empty, \<^verbatim>\<open>_normalise_var\<close>
  returns; the column names and the key columns are unchanged, and every other column \<open>x\<close>
  is replaced by a column \<open>y\<close> of the same length: the values \<^verbatim>\<open>v * scale_ + min_\<close> in the
  arithmetic of the library, with \<^verbatim>\<open>scale_ = (w - 0) / spread\<close> and
  \<^verbatim>\<open>min_ = 0 - min x * scale_\<close>, where the spread \<^verbatim>\<open>max x - min x\<close> is replaced by 1 when it
  is zero or below the threshold. Where a double added to its own negative gives zero, which
  holds for every finite double, each value equal to the minimum of the column goes to
  exactly 0 and a constant column goes to zeros. Where the arithmetic is exact, and the
  spread is zero or not below the threshold, \<open>y\<close> is \<open>(v - min x) / (max x - min x) * w\<close>, all
  zeros when \<open>max x = min x\<close>, and the maximum of the column goes to \<open>w\<close>; in double arithmetic
  the values above the minimum differ from that by the rounding of the quotient, the
  product and the sum.
\<close>

theorem normalise_var_rescales:
  assumes w: "0 < weight"
    and d: "distinct (columns df)"
    and num: "list_all (\<lambda>(c, col). c \<in> set key_columns
                \<or> (\<exists>x. to_floats ValueError col = Inr x \<and> x \<noteq> [])) df"
  shows "\<exists>df'. normalise_var st df weight key_columns = (df', Inr ())
           \<and> columns df' = columns df
           \<and> (\<forall>c col. (c, col) \<in> set df \<and> c \<in> set key_columns \<longrightarrow> getitem df' c = Inr col)
           \<and> (\<forall>c col x. (c, col) \<in> set df \<and> c \<notin> set key_columns
                  \<and> to_floats ValueError col = Inr x \<longrightarrow>
                (\<exists>y. getitem df' c = Inr (map Num y) \<and> length y = length x
                   \<and> y = (let data_range = np_subtract st (Max (set x)) (Min (set x));
                               scale = np_true_divide st (np_subtract st weight 0)
                                 (if data_range = 0 \<or> data_range < constant_threshold st
                                  then 1 else data_range);
                               shift = np_subtract st 0 (np_multiply st (Min (set x)) scale)
                            in map (\<lambda>v. np_add st (np_multiply st v scale) shift) x)
                   \<and> ((\<forall>a. np_add st a (np_subtract st 0 a) = 0) \<longrightarrow>
                        (\<forall>i < length x. x ! i = Min (set x) \<longrightarrow> y ! i = 0)
                        \<and> (Max (set x) = Min (set x) \<longrightarrow> y = map (\<lambda>v. 0) x))
                   \<and> (np_add st = (+) \<and> np_subtract st = (-) \<and> np_multiply st = (*)
                        \<and> np_true_divide st = (/)
                        \<and> \<not> (0 < Max (set x) - Min (set x)
                               \<and> Max (set x) - Min (set x) < constant_threshold st) \<longrightarrow>
                      y = map (\<lambda>v. if Max (set x) = Min (set x) then 0
                                    else (v - Min (set x)) / (Max (set x) - Min (set x))
                                         * weight) x)))"
proof -
  from normalise_var_result[OF w d num, of st]
  obtain df' where r: "normalise_var st df weight key_columns = (df', Inr ())"
    and c: "columns df' = columns df"
    and k: "\<forall>c col. (c, col) \<in> set df \<and> c \<in> set key_columns \<longrightarrow> getitem df' c = Inr col"
    and g: "\<forall>c col. (c, col) \<in> set df \<and> c \<notin> set key_columns \<longrightarrow>
                  getitem df' c = min_max_scaler st weight col"
    by blast
  have s: "\<exists>y. getitem df' c = Inr (map Num y) \<and> length y = length x
                   \<and> y = (let data_range = np_subtract st (Max (set x)) (Min (set x));
                               scale = np_true_divide st (np_subtract st weight 0)
                                 (if data_range = 0 \<or> data_range < constant_threshold st
                                  then 1 else data_range);
                               shift = np_subtract st 0 (np_multiply st (Min (set x)) scale)
                            in map (\<lambda>v. np_add st (np_multiply st v scale) shift) x)
                   \<and> ((\<forall>a. np_add st a (np_subtract st 0 a) = 0) \<longrightarrow>
                        (\<forall>i < length x. x ! i = Min (set x) \<longrightarrow> y ! i = 0)
                        \<and> (Max (set x) = Min (set x) \<longrightarrow> y = map (\<lambda>v. 0) x))
                   \<and> (np_add st = (+) \<and> np_subtract st = (-) \<and> np_multiply st = (*)
                        \<and> np_true_divide st = (/)
                        \<and> \<not> (0 < Max (set x) - Min (set x)
                               \<and> Max (set x) - Min (set x) < constant_threshold st) \<longrightarrow>
                      y = map (\<lambda>v. if Max (set x) = Min (set x) then 0
                                    else (v - Min (set x)) / (Max (set x) - Min (set x))
                                         * weight) x)"
    if in_df: "(c, col) \<in> set df" and nk: "c \<notin> set key_columns"
      and x: "to_floats ValueError col = Inr x" for c col x
  proof -
    from num in_df nk x have ne: "x \<noteq> []" by (auto simp: list_all_iff)
    from g in_df nk have "getitem df' c = min_max_scaler st weight col" by simp
    with min_max_scaler_values[OF w x ne, of st] show ?thesis by simp
  qed
  show ?thesis
    apply (rule exI[of _ df'])
    using r c k s by (intro conjI allI impI; (elim conjE)?; simp)
qed

theorem normalise_var_rescales_witness:
  "(0::real) < 1 / 2
   \<and> distinct (columns two_features)
   \<and> list_all (\<lambda>(c, col). c \<in> set [''index'']
         \<or> (\<exists>x. to_floats ValueError col = Inr x \<and> x \<noteq> [])) two_features
   \<and> (\<forall>a. np_add sample_stats a (np_subtract sample_stats 0 a) = 0)
   \<and> np_add sample_stats = (+) \<and> np_subtract sample_stats = (-)
   \<and> np_multiply sample_stats = (*) \<and> np_true_divide sample_stats = (/)
   \<and> constant_threshold sample_stats = 0
   \<and> (\<exists>df'. normalise_var sample_stats two_features (1 / 2) [''index''] = (df', Inr ())
          \<and> columns df' = [''index'', ''density'', ''flat'']
          \<and> getitem df' ''index'' = Inr [Num 0, Num 1, Num 2]
          \<and> getitem df' ''density'' = Inr [Num 0, Num (1 / 4), Num (1 / 2)]
          \<and> getitem df' ''flat'' = Inr [Num 0, Num 0, Num 0])"
proof -
  have h1: "(0::real) < 1 / 2" by simp
  have h2: "distinct (columns two_features)" by (simp add: two_features_def columns_def)
  have h3: "list_all (\<lambda>(c, col). c \<in> set [''index'']
         \<or> (\<exists>x. to_floats ValueError col = Inr x \<and> x \<noteq> [])) two_features"
    by (simp add: two_features_def)
  have a: "\<forall>a. np_add sample_stats a (np_subtract sample_stats 0 a) = 0"
    by (simp add: sample_stats_def)
  have e1: "np_add sample_stats = (+)" and e2: "np_subtract sample_stats = (-)"
    and e3: "np_multiply sample_stats = (*)" and e4: "np_true_divide sample_stats = (/)"
    and e5: "constant_threshold sample_stats = 0"
    by (simp_all add: sample_stats_def)
  from normalise_var_rescales [OF h1 h2 h3, of sample_stats]
  obtain df' where r: "normalise_var sample_stats two_features (1 / 2) [''index''] = (df', Inr ())"
    and c: "columns df' = columns two_features"
    and k: "\<forall>c col. (c, col) \<in> set two_features \<and> c \<in> set [''index''] \<longrightarrow>
              getitem df' c = Inr col"
    and s: "\<forall>c col x. (c, col) \<in> set two_features \<and> c \<notin> set [''index'']
                  \<and> to_floats ValueError col = Inr x \<longrightarrow>
                (\<exists>y. getitem df' c = Inr (map Num y) \<and> length y = length x
                   \<and> y = (let data_range = np_subtract sample_stats (Max (set x)) (Min (set x));
                               scale = np_true_divide sample_stats (np_subtract sample_stats (1 / 2) 0)
                                 (if data_range = 0 \<or> data_range < constant_threshold sample_stats
                                  then 1 else data_range);
                               shift = np_subtract sample_stats 0
                                         (np_multiply sample_stats (Min (set x)) scale)
                            in map (\<lambda>v. np_add sample_stats (np_multiply sample_stats v scale) shift) x)
                   \<and> ((\<forall>a. np_add sample_stats a (np_subtract sample_stats 0 a) = 0) \<longrightarrow>
                        (\<forall>i < length x. x ! i = Min (set x) \<longrightarrow> y ! i = 0)
                        \<and> (Max (set x) = Min (set x) \<longrightarrow> y = map (\<lambda>v. 0) x))
                   \<and> (np_add sample_stats = (+) \<and> np_subtract sample_stats = (-)
                        \<and> np_multiply sample_stats = (*)
                        \<and> np_true_divide sample_stats = (/)
                        \<and> \<not> (0 < Max (set x) - Min (set x)
                               \<and> Max (set x) - Min (set x) < constant_threshold sample_stats) \<longrightarrow>
                      y = map (\<lambda>v. if Max (set x) = Min (set x) then 0
                                    else (v - Min (set x)) / (Max (set x) - Min (set x))
                                         * (1 / 2)) x))"
    by blast
  have c': "columns df' = [''index'', ''density'', ''flat'']"
    using c by (simp add: two_features_def columns_def)
  have i: "getitem df' ''index'' = Inr [Num 0, Num 1, Num 2]"
    using k by (simp add: two_features_def)
  have "(''density'', [Num 10, Num 20, Num 30]) \<in> set two_features \<and> ''density'' \<notin> set [''index'']
        \<and> to_floats ValueError [Num 10, Num 20, Num 30] = Inr [10, 20, 30]"
    by (simp add: two_features_def)
  from s[rule_format, OF this]
  obtain y where "getitem df' ''density'' = Inr (map Num y)"
    and "y = map (\<lambda>v. if Max (set [10, 20, 30 :: real]) = Min (set [10, 20, 30]) then 0
                        else (v - Min (set [10, 20, 30])) / (Max (set [10, 20, 30])
                                - Min (set [10, 20, 30])) * (1 / 2)) [10, 20, 30]"
    using e1 e2 e3 e4 e5 by auto
  then have dn: "getitem df' ''density'' = Inr [Num 0, Num (1 / 4), Num (1 / 2)]"
    by simp
  have "(''flat'', [Num 3, Num 3, Num 3]) \<in> set two_features \<and> ''flat'' \<notin> set [''index'']
        \<and> to_floats ValueError [Num 3, Num 3, Num 3] = Inr [3, 3, 3]"
    by (simp add: two_features_def)
  from s[rule_format, OF this]
  obtain z where "getitem df' ''flat'' = Inr (map Num z)"
    and "Max (set [3, 3, 3 :: real]) = Min (set [3, 3, 3]) \<longrightarrow> z = map (\<lambda>v. 0) [3, 3, 3 :: real]"
    using a by auto
  then have fl: "getitem df' ''flat'' = Inr [Num 0, Num 0, Num 0]"
    by simp
  from r c' i dn fl
  have t: "\<exists>df'. normalise_var sample_stats two_features (1 / 2) [''index''] = (df', Inr ())
          \<and> columns df' = [''index'', ''density'', ''flat'']
          \<and> getitem df' ''index'' = Inr [Num 0, Num 1, Num 2]
          \<and> getitem df' ''density'' = Inr [Num 0, Num (1 / 4), Num (1 / 2)]
          \<and> getitem df' ''flat'' = Inr [Num 0, Num 0, Num 0]"
    by blast
  from h1 h2 h3 a e1 e2 e3 e4 e5 t show ?thesis by (intro conjI)
qed

text \<open>C3 as stated fails for the weight 0: the scaler refuses the range \<open>(0, 0)\<close>, also on a
  constant column.\<close>

theorem normalise_var_weight_zero_fails:
  "normalise_var sample_stats flat_feature 0 [''index''] = (flat_feature, Inl ValueError)"
  by (simp add: normalise_var_def flat_feature_def columns_def getitem_def matching_def
      min_max_scaler_def)

subsection \<open>The stages and the frame passed to them\<close>

text \<open>
  C9 as stated fails: after each of the three calls the frame that was passed has a
  different content (new columns after the transformer and the selector, rescaled values
  after the normaliser).
\<close>

theorem stages_change_their_input:
  "fst (transform_var_call sample_stats sample_store 0 ''transformation_1'') 0 \<noteq> sample_store 0
   \<and> fst (normalise_var_call sample_stats sample_store 1 (1 / 2) [''index'']) 1 \<noteq> sample_store 1
   \<and> fst (get_best_gaussian_transformation_call sample_stats sample_store 2
             ''transformation'' [''index'']) 2 \<noteq> sample_store 2"
proof (intro conjI)
  have "length (fst (transform_var sample_stats positive_feature ''transformation_1'')) = 9"
    by (simp add: transform_var_def positive_feature_def getitem_def matching_def setitem_def
        columns_def yeojohnson_def boxcox_def sample_stats_def Let_def)
  then show "fst (transform_var_call sample_stats sample_store 0 ''transformation_1'') 0
               \<noteq> sample_store 0"
    by (auto simp: transform_var_call_def sample_store_def positive_feature_def
        split: prod.splits sum.splits)
  show "fst (normalise_var_call sample_stats sample_store 1 (1 / 2) [''index'']) 1 \<noteq> sample_store 1"
    by (simp add: normalise_var_call_def sample_store_def normalise_var_def two_features_def
        columns_def getitem_def matching_def setitem_def min_max_scaler_def sample_stats_def
        Let_def)
  show "fst (get_best_gaussian_transformation_call sample_stats sample_store 2
               ''transformation'' [''index'']) 2 \<noteq> sample_store 2"
    by (simp add: get_best_gaussian_transformation_call_def sample_store_def
        get_best_gaussian_transformation_def three_candidates_def sample_stats_def
        max_by_value_def getitem_def matching_def setitem_def columns_def)
qed

text \<open>
  C9, as the code has it. Each stage writes into the frame at the reference passed to it and
  returns that reference; every other frame of the store is left as it is. Under the
  conditions of C5 the frame passed to the transformer holds, when the call ends, its old
  columns followed by the variant columns. Under the conditions of C3 the frame passed to the
  normaliser keeps its column names and its key columns, and each other column holds what the
  scaler returns for the old column. Under the conditions of C4 the frame passed to the
  selector holds, in the column \<open>target_best\<close>, one of its candidate columns.
\<close>

theorem stages_update_in_place:
  "(\<forall>r. r \<noteq> r1 \<longrightarrow> fst (transform_var_call st s r1 feature) r = s r)
   \<and> (\<forall>r g. snd (transform_var_call st s r1 feature) = Inr (r, g) \<longrightarrow> r = r1)
   \<and> (\<forall>r. r \<noteq> r2 \<longrightarrow> fst (normalise_var_call st s r2 weight key_columns) r = s r)
   \<and> (\<forall>r. snd (normalise_var_call st s r2 weight key_columns) = Inr r \<longrightarrow> r = r2)
   \<and> (\<forall>r. r \<noteq> r3 \<longrightarrow>
         fst (get_best_gaussian_transformation_call st s r3 target keys) r = s r)
   \<and> (\<forall>r. snd (get_best_gaussian_transformation_call st s r3 target keys) = Inr r
         \<longrightarrow> r = r3)
   \<and> (getitem (s r1) feature = Inr col
        \<and> to_floats TypeError col = Inr x
        \<and> x \<noteq> []
        \<and> yeojohnson_normmax st x = Inr l1
        \<and> ((boxcox_normmax st x = Inr l2 \<and> (\<exists>v \<in> set x. v \<noteq> hd x))
             \<or> \<not> (\<forall>v \<in> set x. 0 < v))
        \<and> set (map ((@) feature) [''_yj'', ''_sqrr'', ''_log'', ''_squared'', ''_bc'',
                  ''_recip_sqrr'', ''_recip'']) \<inter> set (columns (s r1)) = {}
      \<longrightarrow> transform_var_call st s r1 feature
           = (s(r1 := s r1
                 @ [(feature @ ''_yj'', map (\<lambda>v. Num (yeojohnson_transform st v l1)) x),
                    (feature @ ''_sqrr'', map (\<lambda>v. Num (np_power st v (1 / 2))) x),
                    (feature @ ''_log'', map (\<lambda>v. Num (np_log1p st v)) x),
                    (feature @ ''_squared'', map (\<lambda>v. Num (np_power st v 2)) x)]
                 @ (if \<forall>v \<in> set x. 0 < v
                    then [(feature @ ''_bc'', map (\<lambda>v. Num (special_boxcox st v l2)) x),
                          (feature @ ''_recip_sqrr'',
                             map (\<lambda>v. Num (np_power st v (- 1 / 2))) x),
                          (feature @ ''_recip'', map (\<lambda>v. Num (np_true_divide st 1 v)) x)]
                    else [])),
              Inr (r1, \<forall>v \<in> set x. 0 < v)))
   \<and> (0 < weight
        \<and> distinct (columns (s r2))
        \<and> list_all (\<lambda>(c, col). c \<in> set key_columns
                \<or> (\<exists>x. to_floats ValueError col = Inr x \<and> x \<noteq> [])) (s r2)
      \<longrightarrow> (\<exists>df'. normalise_var_call st s r2 weight key_columns = (s(r2 := df'), Inr r2)
            \<and> columns df' = columns (s r2)
            \<and> (\<forall>c col. (c, col) \<in> set (s r2) \<and> c \<in> set key_columns \<longrightarrow>
                   getitem df' c = Inr col)
            \<and> (\<forall>c col. (c, col) \<in> set (s r2) \<and> c \<notin> set key_columns \<longrightarrow>
                   getitem df' c = min_max_scaler st weight col)))
   \<and> (distinct (columns (s r3))
        \<and> list_all (\<lambda>(c, col). c \<in> set keys
             \<or> (\<exists>x p. to_floats ValueError col = Inr x \<and> shapiro_pvalue st x = Inr p)) (s r3)
        \<and> (\<exists>c \<in> set (columns (s r3)). c \<notin> set keys)
      \<longrightarrow> (\<exists>c col. (c, col) \<in> set (s r3) \<and> c \<notin> set keys
            \<and> get_best_gaussian_transformation_call st s r3 target keys
                = (s(r3 := setitem (s r3) (target @ ''_best'') col), Inr r3)))"
proof (intro conjI impI; (elim conjE)?)
  show "\<forall>r. r \<noteq> r1 \<longrightarrow> fst (transform_var_call st s r1 feature) r = s r"
    by (auto simp: transform_var_call_def split: prod.splits sum.splits)
  show "\<forall>r g. snd (transform_var_call st s r1 feature) = Inr (r, g) \<longrightarrow> r = r1"
    by (auto simp: transform_var_call_def split: prod.splits sum.splits)
  show "\<forall>r. r \<noteq> r2 \<longrightarrow> fst (normalise_var_call st s r2 weight key_columns) r = s r"
    by (auto simp: normalise_var_call_def split: prod.splits sum.splits)
  show "\<forall>r. snd (normalise_var_call st s r2 weight key_columns) = Inr r \<longrightarrow> r = r2"
    by (auto simp: normalise_var_call_def split: prod.splits sum.splits)
  show "\<forall>r. r \<noteq> r3 \<longrightarrow>
           fst (get_best_gaussian_transformation_call st s r3 target keys) r = s r"
    by (auto simp: get_best_gaussian_transformation_call_def split: prod.splits sum.splits)
  show "\<forall>r. snd (get_best_gaussian_transformation_call st s r3 target keys) = Inr r
         \<longrightarrow> r = r3"
    by (auto simp: get_best_gaussian_transformation_call_def split: prod.splits sum.splits)
next
  assume col: "getitem (s r1) feature = Inr col"
    and x: "to_floats TypeError col = Inr x"
    and ne: "x \<noteq> []"
    and yj: "yeojohnson_normmax st x = Inr l1"
    and bc: "(boxcox_normmax st x = Inr l2 \<and> (\<exists>v \<in> set x. v \<noteq> hd x))
             \<or> \<not> (\<forall>v \<in> set x. 0 < v)"
    and fresh: "set (map ((@) feature) [''_yj'', ''_sqrr'', ''_log'', ''_squared'', ''_bc'',
                  ''_recip_sqrr'', ''_recip'']) \<inter> set (columns (s r1)) = {}"
  show "transform_var_call st s r1 feature
           = (s(r1 := s r1
                 @ [(feature @ ''_yj'', map (\<lambda>v. Num (yeojohnson_transform st v l1)) x),
                    (feature @ ''_sqrr'', map (\<lambda>v. Num (np_power st v (1 / 2))) x),
                    (feature @ ''_log'', map (\<lambda>v. Num (np_log1p st v)) x),
                    (feature @ ''_squared'', map (\<lambda>v. Num (np_power st v 2)) x)]
                 @ (if \<forall>v \<in> set x. 0 < v
                    then [(feature @ ''_bc'', map (\<lambda>v. Num (special_boxcox st v l2)) x),
                          (feature @ ''_recip_sqrr'',
                             map (\<lambda>v. Num (np_power st v (- 1 / 2))) x),
                          (feature @ ''_recip'', map (\<lambda>v. Num (np_true_divide st 1 v)) x)]
                    else [])),
              Inr (r1, \<forall>v \<in> set x. 0 < v))"
    unfolding transform_var_call_def transform_var_result[OF col x ne yj bc fresh] by simp
next
  assume w: "0 < weight"
    and d: "distinct (columns (s r2))"
    and num: "list_all (\<lambda>(c, col). c \<in> set key_columns
                \<or> (\<exists>x. to_floats ValueError col = Inr x \<and> x \<noteq> [])) (s r2)"
  from normalise_var_result[OF w d num, of st]
  obtain df' where r: "normalise_var st (s r2) weight key_columns = (df', Inr ())"
    and c: "columns df' = columns (s r2)"
    and k: "\<forall>c col. (c, col) \<in> set (s r2) \<and> c \<in> set key_columns \<longrightarrow> getitem df' c = Inr col"
    and g: "\<forall>c col. (c, col) \<in> set (s r2) \<and> c \<notin> set key_columns \<longrightarrow>
                  getitem df' c = min_max_scaler st weight col"
    by blast
  have "normalise_var_call st s r2 weight key_columns = (s(r2 := df'), Inr r2)"
    by (simp add: normalise_var_call_def r)
  with c k g
  show "\<exists>df'. normalise_var_call st s r2 weight key_columns = (s(r2 := df'), Inr r2)
            \<and> columns df' = columns (s r2)
            \<and> (\<forall>c col. (c, col) \<in> set (s r2) \<and> c \<in> set key_columns \<longrightarrow>
                   getitem df' c = Inr col)
            \<and> (\<forall>c col. (c, col) \<in> set (s r2) \<and> c \<notin> set key_columns \<longrightarrow>
                   getitem df' c = min_max_scaler st weight col)"
    by blast
next
  assume dist: "distinct (columns (s r3))"
    and tested: "list_all (\<lambda>(c, col). c \<in> set keys
             \<or> (\<exists>x p. to_floats ValueError col = Inr x \<and> shapiro_pvalue st x = Inr p)) (s r3)"
    and some: "\<exists>c \<in> set (columns (s r3)). c \<notin> set keys"
  from get_best_result[OF dist tested some, of target]
  obtain before c col after where
    split: "filter (\<lambda>(c, col). c \<notin> set keys) (s r3) = before @ (c, col) # after"
    and best: "get_best_gaussian_transformation st (s r3) target keys
             = (setitem (s r3) (target @ ''_best'') col, Inr ())"
    by blast
  have "(c, col) \<in> set (filter (\<lambda>(c, col). c \<notin> set keys) (s r3))" by (subst split) simp
  then have "(c, col) \<in> set (s r3)" and "c \<notin> set keys" by simp_all
  moreover have "get_best_gaussian_transformation_call st s r3 target keys
                = (s(r3 := setitem (s r3) (target @ ''_best'') col), Inr r3)"
    by (simp add: get_best_gaussian_transformation_call_def best)
  ultimately show "\<exists>c col. (c, col) \<in> set (s r3) \<and> c \<notin> set keys
            \<and> get_best_gaussian_transformation_call st s r3 target keys
                = (s(r3 := setitem (s r3) (target @ ''_best'') col), Inr r3)"
    by blast
qed

theorem stages_update_in_place_witness:
  "getitem (sample_store 0) ''transformation_1'' = Inr [Num 2, Num 4, Num 6]
   \<and> to_floats TypeError [Num 2, Num 4, Num 6] = Inr [2, 4, 6]
   \<and> [2, 4, 6 :: real] \<noteq> []
   \<and> yeojohnson_normmax sample_stats [2, 4, 6] = Inr 1
   \<and> boxcox_normmax sample_stats [2, 4, 6] = Inr 1
   \<and> (\<exists>v \<in> set [2, 4, 6 :: real]. v \<noteq> hd [2, 4, 6])
   \<and> set (map ((@) ''transformation_1'') [''_yj'', ''_sqrr'', ''_log'', ''_squared'', ''_bc'',
             ''_recip_sqrr'', ''_recip'']) \<inter> set (columns (sample_store 0)) = {}
   \<and> (0::real) < 1 / 2
   \<and> distinct (columns (sample_store 1))
   \<and> list_all (\<lambda>(c, col). c \<in> set [''index'']
         \<or> (\<exists>x. to_floats ValueError col = Inr x \<and> x \<noteq> [])) (sample_store 1)
   \<and> distinct (columns (sample_store 2))
   \<and> list_all (\<lambda>(c, col). c \<in> set [''index'']
         \<or> (\<exists>x p. to_floats ValueError col = Inr x
                \<and> shapiro_pvalue sample_stats x = Inr p)) (sample_store 2)
   \<and> (\<exists>c \<in> set (columns (sample_store 2)). c \<notin> set [''index''])
   \<and> snd (transform_var_call sample_stats sample_store 0 ''transformation_1'') = Inr (0, True)
   \<and> columns (fst (transform_var_call sample_stats sample_store 0 ''transformation_1'') 0)
       = [''index'', ''transformation_1'', ''transformation_1_yj'', ''transformation_1_sqrr'',
          ''transformation_1_log'', ''transformation_1_squared'', ''transformation_1_bc'',
          ''transformation_1_recip_sqrr'', ''transformation_1_recip'']
   \<and> fst (transform_var_call sample_stats sample_store 0 ''transformation_1'') 1 = two_features
   \<and> (\<exists>df'. normalise_var_call sample_stats sample_store 1 (1 / 2) [''index'']
               = (sample_store(1 := df'), Inr 1)
          \<and> columns df' = [''index'', ''density'', ''flat'']
          \<and> getitem df' ''index'' = Inr [Num 0, Num 1, Num 2]
          \<and> getitem df' ''density''
              = min_max_scaler sample_stats (1 / 2) [Num 10, Num 20, Num 30])
   \<and> (\<exists>c col. (c, col) \<in> set (sample_store 2) \<and> c \<notin> set [''index'']
          \<and> get_best_gaussian_transformation_call sample_stats sample_store 2
               ''transformation'' [''index'']
             = (sample_store(2 := setitem (sample_store 2) (''transformation'' @ ''_best'') col),
                Inr 2))"
proof -
  have h1: "getitem (sample_store 0) ''transformation_1'' = Inr [Num 2, Num 4, Num 6]"
    by (simp add: sample_store_def positive_feature_def getitem_def matching_def)
  have h2: "to_floats TypeError [Num 2, Num 4, Num 6] = Inr [2, 4, 6]" by simp
  have h3: "[2, 4, 6 :: real] \<noteq> []" by simp
  have h4: "yeojohnson_normmax sample_stats [2, 4, 6] = Inr 1" by (simp add: sample_stats_def)
  have h5: "boxcox_normmax sample_stats [2, 4, 6] = Inr 1" by (simp add: sample_stats_def)
  have h5': "\<exists>v \<in> set [2, 4, 6 :: real]. v \<noteq> hd [2, 4, 6]" by simp
  have h6: "set (map ((@) ''transformation_1'') [''_yj'', ''_sqrr'', ''_log'', ''_squared'', ''_bc'',
             ''_recip_sqrr'', ''_recip'']) \<inter> set (columns (sample_store 0)) = {}"
    by (simp add: sample_store_def positive_feature_def columns_def)
  have h7: "(0::real) < 1 / 2" by simp
  have h8: "distinct (columns (sample_store 1))"
    by (simp add: sample_store_def two_features_def columns_def)
  have h9: "list_all (\<lambda>(c, col). c \<in> set [''index'']
         \<or> (\<exists>x. to_floats ValueError col = Inr x \<and> x \<noteq> [])) (sample_store 1)"
    by (simp add: sample_store_def two_features_def)
  have h10: "distinct (columns (sample_store 2))"
    by (simp add: sample_store_def three_candidates_def columns_def)
  have h11: "list_all (\<lambda>(c, col). c \<in> set [''index'']
         \<or> (\<exists>x p. to_floats ValueError col = Inr x
                \<and> shapiro_pvalue sample_stats x = Inr p)) (sample_store 2)"
    by (simp add: sample_store_def three_candidates_def sample_stats_def)
  have h12: "\<exists>c \<in> set (columns (sample_store 2)). c \<notin> set [''index'']"
    by (simp add: sample_store_def three_candidates_def columns_def)
  note t = stages_update_in_place [where s = sample_store and st = sample_stats
      and ?r1.0 = 0 and ?r2.0 = 1 and ?r3.0 = 2 and feature = "''transformation_1''"
      and col = "[Num 2, Num 4, Num 6]" and x = "[2, 4, 6]" and ?l1.0 = 1 and ?l2.0 = 1
      and weight = "1 / 2" and key_columns = "[''index'']" and keys = "[''index'']"
      and target = "''transformation''"]
  note rest = t[THEN conjunct2, THEN conjunct2, THEN conjunct2, THEN conjunct2, THEN conjunct2,
      THEN conjunct2]
  have hb: "(boxcox_normmax sample_stats [2, 4, 6] = Inr 1
             \<and> (\<exists>v \<in> set [2, 4, 6 :: real]. v \<noteq> hd [2, 4, 6]))
            \<or> \<not> (\<forall>v \<in> set [2, 4, 6 :: real]. 0 < v)"
    using h5 h5' by (intro disjI1 conjI)
  have t1: "transform_var_call sample_stats sample_store 0 ''transformation_1''
           = (sample_store(0 := sample_store 0
                 @ [(''transformation_1'' @ ''_yj'',
                       map (\<lambda>v. Num (yeojohnson_transform sample_stats v 1)) [2, 4, 6]),
                    (''transformation_1'' @ ''_sqrr'',
                       map (\<lambda>v. Num (np_power sample_stats v (1 / 2))) [2, 4, 6]),
                    (''transformation_1'' @ ''_log'',
                       map (\<lambda>v. Num (np_log1p sample_stats v)) [2, 4, 6]),
                    (''transformation_1'' @ ''_squared'',
                       map (\<lambda>v. Num (np_power sample_stats v 2)) [2, 4, 6])]
                 @ (if \<forall>v \<in> set [2, 4, 6 :: real]. 0 < v
                    then [(''transformation_1'' @ ''_bc'',
                             map (\<lambda>v. Num (special_boxcox sample_stats v 1)) [2, 4, 6]),
                          (''transformation_1'' @ ''_recip_sqrr'',
                             map (\<lambda>v. Num (np_power sample_stats v (- 1 / 2))) [2, 4, 6]),
                          (''transformation_1'' @ ''_recip'',
                             map (\<lambda>v. Num (np_true_divide sample_stats 1 v)) [2, 4, 6])]
                    else [])),
              Inr (0, \<forall>v \<in> set [2, 4, 6 :: real]. 0 < v))"
    using h1 h2 h3 h4 hb h6 by (intro rest[THEN conjunct1, THEN mp] conjI)
  have t2: "\<exists>df'. normalise_var_call sample_stats sample_store 1 (1 / 2) [''index'']
                 = (sample_store(1 := df'), Inr 1)
            \<and> columns df' = columns (sample_store 1)
            \<and> (\<forall>c col. (c, col) \<in> set (sample_store 1) \<and> c \<in> set [''index''] \<longrightarrow>
                   getitem df' c = Inr col)
            \<and> (\<forall>c col. (c, col) \<in> set (sample_store 1) \<and> c \<notin> set [''index''] \<longrightarrow>
                   getitem df' c = min_max_scaler sample_stats (1 / 2) col)"
    using h7 h8 h9 by (intro rest[THEN conjunct2, THEN conjunct1, THEN mp] conjI)
  have t3: "\<exists>c col. (c, col) \<in> set (sample_store 2) \<and> c \<notin> set [''index'']
          \<and> get_best_gaussian_transformation_call sample_stats sample_store 2
               ''transformation'' [''index'']
             = (sample_store(2 := setitem (sample_store 2) (''transformation'' @ ''_best'') col),
                Inr 2)"
    using h10 h11 h12 by (intro rest[THEN conjunct2, THEN conjunct2, THEN mp] conjI)
  note t4 = t[THEN conjunct1]
  have a: "snd (transform_var_call sample_stats sample_store 0 ''transformation_1'') = Inr (0, True)"
    unfolding t1 by simp
  have b: "columns (fst (transform_var_call sample_stats sample_store 0 ''transformation_1'') 0)
       = [''index'', ''transformation_1'', ''transformation_1_yj'', ''transformation_1_sqrr'',
          ''transformation_1_log'', ''transformation_1_squared'', ''transformation_1_bc'',
          ''transformation_1_recip_sqrr'', ''transformation_1_recip'']"
    unfolding t1 by (simp add: sample_store_def positive_feature_def columns_def)
  have "fst (transform_var_call sample_stats sample_store 0 ''transformation_1'') 1
          = sample_store 1"
    by (rule t4[rule_format]) simp
  then have c: "fst (transform_var_call sample_stats sample_store 0 ''transformation_1'') 1
          = two_features"
    by (simp add: sample_store_def)
  from t2 obtain df' where
    n1: "normalise_var_call sample_stats sample_store 1 (1 / 2) [''index'']
               = (sample_store(1 := df'), Inr 1)"
    and n2: "columns df' = columns (sample_store 1)"
    and n3: "\<forall>c col. (c, col) \<in> set (sample_store 1) \<and> c \<in> set [''index''] \<longrightarrow>
                   getitem df' c = Inr col"
    and n4: "\<forall>c col. (c, col) \<in> set (sample_store 1) \<and> c \<notin> set [''index''] \<longrightarrow>
                   getitem df' c = min_max_scaler sample_stats (1 / 2) col"
    by blast
  have n2': "columns df' = [''index'', ''density'', ''flat'']"
    using n2 by (simp add: sample_store_def two_features_def columns_def)
  have n3': "getitem df' ''index'' = Inr [Num 0, Num 1, Num 2]"
    using n3 by (simp add: sample_store_def two_features_def)
  have n4': "getitem df' ''density'' = min_max_scaler sample_stats (1 / 2) [Num 10, Num 20, Num 30]"
    using n4 by (simp add: sample_store_def two_features_def)
  from n1 n2' n3' n4'
  have d: "\<exists>df'. normalise_var_call sample_stats sample_store 1 (1 / 2) [''index'']
               = (sample_store(1 := df'), Inr 1)
          \<and> columns df' = [''index'', ''density'', ''flat'']
          \<and> getitem df' ''index'' = Inr [Num 0, Num 1, Num 2]
          \<and> getitem df' ''density''
              = min_max_scaler sample_stats (1 / 2) [Num 10, Num 20, Num 30]"
    by blast
  from h1 h2 h3 h4 h5 h5' h6 h7 h8 h9 h10 h11 h12 a b c d t3 show ?thesis by (intro conjI)
qed

subsection \<open>The inner join on the keys\<close>

lemma select_columns_error:
  "select_columns df cs = Inl e \<Longrightarrow> e = KeyError"
  by (induction cs) (auto split: list.splits sum.splits)

lemma matching_missing:
  "c \<notin> set (columns df) \<Longrightarrow> matching df c = []"
  by (auto simp: matching_def filter_empty_conv columns_def rev_image_eqI)

lemma matching_Cons_distinct:
  assumes "distinct (columns df)" and "matching df c = m # ms"
  shows "ms = []" and "fst m = c"
proof -
  have "m \<in> set (matching df c)" using assms(2) by simp
  then have m: "m \<in> set df" "fst m = c" by (auto simp: matching_def)
  then have "matching df c = [(c, snd m)]"
    using matching_distinct[OF assms(1), of c "snd m"] by (cases m) auto
  with assms(2) show "ms = []" by simp
  show "fst m = c" by (rule m(2))
qed

lemma select_columns_names:
  "distinct (columns df) \<Longrightarrow> select_columns df cs = Inr r \<Longrightarrow> columns r = cs"
proof (induction cs arbitrary: r)
  case Nil
  then show ?case by (simp add: columns_def)
next
  case (Cons c cs)
  from Cons.prems(2) obtain m ms r' where m: "matching df c = m # ms"
    and r': "select_columns df cs = Inr r'" and r: "r = m # ms @ r'"
    by (auto split: list.splits sum.splits)
  from matching_Cons_distinct[OF Cons.prems(1) m] Cons.IH[OF Cons.prems(1) r'] r
  show ?case by (simp add: columns_def)
qed

lemma select_columns_names_set:
  "select_columns df cs = Inr r \<Longrightarrow> set (columns r) = set cs"
proof (induction cs arbitrary: r)
  case Nil
  then show ?case by (simp add: columns_def)
next
  case (Cons c cs)
  from Cons.prems obtain m ms r' where m: "matching df c = m # ms"
    and r': "select_columns df cs = Inr r'" and r: "r = m # ms @ r'"
    by (auto split: list.splits sum.splits)
  have "\<forall>x \<in> set (m # ms). fst x = c" unfolding m[symmetric] by (auto simp: matching_def)
  then have "set (columns (m # ms)) = {c}" by (auto simp: columns_def)
  with Cons.IH[OF r'] r show ?case by (auto simp: columns_def)
qed

lemma select_columns_distinct:
  "select_columns df cs = Inr r \<Longrightarrow> distinct (columns r) \<Longrightarrow> distinct cs"
proof (induction cs arbitrary: r)
  case Nil
  then show ?case by simp
next
  case (Cons c cs)
  from Cons.prems(1) obtain m ms r' where m: "matching df c = m # ms"
    and r': "select_columns df cs = Inr r'" and r: "r = m # ms @ r'"
    by (auto split: list.splits sum.splits)
  have "m \<in> set (matching df c)" using m by simp
  then have fm: "fst m = c" by (auto simp: matching_def)
  from Cons.prems(2) r fm have "c \<notin> set (columns r')" and "distinct (columns r')"
    by (auto simp: columns_def)
  with Cons.IH[OF r'] select_columns_names_set[OF r'] show ?case by simp
qed

lemma select_columns_append:
  "select_columns df (cs @ [c]) =
     (case select_columns df cs of
        Inl e \<Rightarrow> Inl e
      | Inr r \<Rightarrow> (case matching df c of [] \<Rightarrow> Inl KeyError | m # ms \<Rightarrow> Inr (r @ m # ms)))"
proof (induction cs)
  case Nil
  show ?case by (simp split: list.splits)
next
  case (Cons a cs)
  show ?case
  proof (cases "select_columns df cs")
    case (Inl e)
    with select_columns_error[OF Inl] Cons show ?thesis
      by (simp split: list.splits)
  next
    case (Inr r)
    with Cons show ?thesis by (simp split: list.splits)
  qed
qed

lemma filter_eq_index:
  "i < n \<Longrightarrow> filter (\<lambda>j. i = j) [0..<n] = [i]"
  by (induction n) (auto simp: less_Suc_eq)

lemma matching_rows_self:
  assumes "distinct R"
  shows "matching_rows R R = map (\<lambda>i. (i, i)) [0..<length R]"
proof -
  have "filter (\<lambda>j. R ! i = R ! j) [0..<length R] = [i]" if "i < length R" for i
  proof -
    have "filter (\<lambda>j. R ! i = R ! j) [0..<length R] = filter (\<lambda>j. i = j) [0..<length R]"
      using assms that by (intro filter_cong refl) (auto simp: nth_eq_iff_index_eq)
    then show ?thesis using filter_eq_index[OF that] by simp
  qed
  then have "map (\<lambda>i. map (Pair i) (filter (\<lambda>j. R ! i = R ! j) [0..<length R])) [0..<length R]
             = map (\<lambda>i. [(i, i)]) [0..<length R]"
    by (intro map_cong refl) simp
  then have "matching_rows R R = concat (map (\<lambda>i. [(i, i)]) [0..<length R])"
    unfolding matching_rows_def by (rule arg_cong)
  then show ?thesis
    by (simp only: concat_map_singleton)
qed

lemma map_nth_pairs:
  "length s = n \<Longrightarrow> map (\<lambda>(i, j). s ! i) (map (\<lambda>i. (i, i)) [0..<n]) = s"
  by (auto simp: comp_def intro: nth_equalityI)

lemma select_columns_sub:
  "distinct (columns df) \<Longrightarrow> set r \<subseteq> set df \<Longrightarrow> select_columns df (columns r) = Inr r"
proof (induction r)
  case Nil
  then show ?case by (simp add: columns_def)
next
  case (Cons a r)
  obtain c s where a: "a = (c, s)" by (cases a)
  with Cons.prems have "matching df c = [(c, s)]" by (intro matching_distinct) auto
  moreover from Cons have "select_columns df (columns r) = Inr r" by simp
  ultimately show ?case using a by (simp add: columns_def)
qed

lemma nrows_all:
  "df \<noteq> [] \<Longrightarrow> list_all (\<lambda>(c, s). length s = n) df \<Longrightarrow> nrows df = n"
  by (cases df) (auto simp: nrows_def)

lemma length_key_rows: "length (key_rows n kc) = n"
  by (simp add: key_rows_def)

lemma map_nth_pairs_snd:
  "length s = n \<Longrightarrow> map (\<lambda>(i, j). s ! j) (map (\<lambda>i. (i, i)) [0..<n]) = s"
  by (auto simp: comp_def intro: nth_equalityI)

lemma merge_one_column:
  assumes on: "on \<noteq> []" and d_on: "distinct on"
    and lk: "select_columns left on = Inr kc"
    and dl: "distinct (columns left)"
    and c: "c \<notin> set (columns left)" "c \<notin> set on"
    and len_l: "list_all (\<lambda>(c, s). length s = n) left"
    and len_k: "list_all (\<lambda>(c, s). length s = n) kc"
    and len_c: "length col = n"
    and rows: "distinct (key_rows n kc)"
  shows "merge left (kc @ [(c, col)]) on = Inr (left @ [(c, col)])"
proof -
  let ?right = "kc @ [(c, col)]"
  let ?pairs = "map (\<lambda>i. (i, i)) [0..<n]"
  have ck: "columns kc = on" using select_columns_names[OF dl lk] .
  have cr: "columns ?right = on @ [c]" using ck by (simp add: columns_def)
  have dr: "distinct (columns ?right)" using cr d_on c(2) by simp
  have "set kc \<subseteq> set ?right" by auto
  from select_columns_sub[OF dr this] have rk: "select_columns ?right on = Inr kc"
    unfolding ck .
  have kne: "kc \<noteq> []" using ck on by (auto simp: columns_def)
  have lne: "left \<noteq> []" using lk on by (cases on) (auto simp: matching_def split: list.splits)
  have nl: "nrows left = n" using nrows_all[OF lne len_l] .
  have nr: "nrows ?right = n" using kne len_k by (cases kc) (auto simp: nrows_def)
  have pairs: "matching_rows (key_rows n kc) (key_rows n kc) = ?pairs"
    using matching_rows_self[OF rows] by (simp add: length_key_rows)
  have lpart: "map (\<lambda>(c', s). (merged_name on (columns ?right) Left c', map (\<lambda>(i, j). s ! i) ?pairs)) left
               = left"
  proof (rule map_idI)
    fix x assume x: "x \<in> set left"
    obtain c' s where cs: "x = (c', s)" by (cases x)
    with x have "c' \<in> set (columns left)" by (force simp: columns_def)
    with c(1) have "c' \<noteq> c" by auto
    then have nm: "merged_name on (columns ?right) Left c' = c'"
      by (auto simp: merged_name_def cr)
    from x cs len_l have "length s = n" by (auto simp: list_all_iff)
    then have "map (\<lambda>(i, j). s ! i) ?pairs = s" by (rule map_nth_pairs)
    with nm cs show "(case x of (c', s) \<Rightarrow>
            (merged_name on (columns ?right) Left c', map (\<lambda>(i, j). s ! i) ?pairs)) = x"
      by simp
  qed
  have "filter (\<lambda>(c', s). c' \<notin> set on) kc = []"
    using ck by (force simp: filter_empty_conv columns_def)
  then have rfilter: "filter (\<lambda>(c', s). c' \<notin> set on) ?right = [(c, col)]"
    using c(2) by simp
  have rname: "merged_name on (columns left) Right c = c"
    using c(1) by (simp add: merged_name_def)
  have rvals: "map (\<lambda>(i, j). col ! j) ?pairs = col"
    using len_c by (rule map_nth_pairs_snd)
  have dres: "distinct (columns (left @ [(c, col)]))"
    using dl c(1) by (simp add: columns_def)
  show ?thesis
    unfolding merge_def
    using on
    by (simp only: lk rk sum.case dl dr nl nr pairs Let_def lpart rfilter rname rvals dres
        if_False if_True not_True_eq_False simp_thms list.map prod.case)
qed

subsection \<open>Override of the selected variant\<close>

text \<open>
  The override by column name. Take a feature with weight \<open>> 0\<close> that the override map
  sends to the code \<open>code\<close>, and
  let \<open>td\<close> be the frame of its candidates after the three stages. If \<open>td\<close> has no column
  \<open>feature_code\<close>, the loop body raises KeyError. If it has one, the body joins that column,
  whatever the selector has chosen as \<open>feature_best\<close>: when the key columns of \<open>td\<close> are those
  of the output so far, with no key row occurring twice and the new name not yet taken, the
  new output is the old one with the column \<open>feature_code\<close> of \<open>td\<close> appended.
\<close>

theorem override_selects_named_variant:
  assumes w: "0 < weight"
    and ct: "ct feature = Some code"
    and sel: "select_columns df_all (la_keys @ [feature]) = Inr df_var"
    and cand: "candidates st df_var la_keys normalise feature weight = (td, Inr g)"
    and rep: "report \<longrightarrow> 3 < length output_folders"
  shows "(feature @ ''_'' @ code \<notin> set (columns td) \<longrightarrow>
            snd (transform_feature st df_all la_keys output_folders report normalise (Some ct)
                   (feature, weight) (fs, out)) = Inl KeyError)
       \<and> (\<forall>col kc n.
             getitem td (feature @ ''_'' @ code) = Inr col
             \<and> select_columns td la_keys = Inr kc \<and> select_columns out la_keys = Inr kc
             \<and> la_keys \<noteq> [] \<and> distinct la_keys \<and> distinct (columns out)
             \<and> feature @ ''_'' @ code \<notin> set (columns out)
             \<and> feature @ ''_'' @ code \<notin> set la_keys
             \<and> list_all (\<lambda>(c, s). length s = n) out \<and> list_all (\<lambda>(c, s). length s = n) kc
             \<and> length col = n \<and> distinct (key_rows n kc)
           \<longrightarrow> snd (transform_feature st df_all la_keys output_folders report normalise (Some ct)
                      (feature, weight) (fs, out))
                 = Inr (out @ [(feature @ ''_'' @ code, col)]))"
proof -
  let ?fc = "feature @ ''_'' @ code"
  define fs1 where "fs1 = (if report then transformation_report fs (output_folders ! 3) feature else fs)"
  have r: "(if report
            then (case folder output_folders 3 of
                    Inl e \<Rightarrow> Inl e
                  | Inr OUT_TRANS \<Rightarrow> Inr (transformation_report fs OUT_TRANS feature))
            else Inr fs) = Inr fs1"
    using rep by (simp add: folder_def fs1_def)
  have body: "transform_feature st df_all la_keys output_folders report normalise (Some ct)
                (feature, weight) (fs, out)
              = (case select_columns td (la_keys @ [?fc]) of
                   Inl e \<Rightarrow> (fs1, Inl e)
                 | Inr chosen \<Rightarrow>
                     (case merge out chosen la_keys of
                        Inl e \<Rightarrow> (fs1, Inl e)
                      | Inr merged \<Rightarrow> (fs1, Inr merged)))"
    unfolding transform_feature_def
    by (simp only: prod.case sel sum.case w if_True cand r column_to_use_def option.case ct)
  have a: "snd (transform_feature st df_all la_keys output_folders report normalise (Some ct)
                   (feature, weight) (fs, out)) = Inl KeyError"
    if "?fc \<notin> set (columns td)"
  proof (cases "select_columns td la_keys")
    case (Inl e)
    with select_columns_error[OF Inl] show ?thesis
      by (simp add: body select_columns_append)
  next
    case (Inr kc)
    with matching_missing[OF that] show ?thesis
      by (simp add: body select_columns_append)
  qed
  have b: "snd (transform_feature st df_all la_keys output_folders report normalise (Some ct)
                      (feature, weight) (fs, out)) = Inr (out @ [(?fc, col)])"
    if col: "getitem td ?fc = Inr col"
      and kc: "select_columns td la_keys = Inr kc" "select_columns out la_keys = Inr kc"
      and keys: "la_keys \<noteq> []" "distinct la_keys"
      and out: "distinct (columns out)" "?fc \<notin> set (columns out)" "?fc \<notin> set la_keys"
      and len: "list_all (\<lambda>(c, s). length s = n) out" "list_all (\<lambda>(c, s). length s = n) kc"
        "length col = n"
      and rows: "distinct (key_rows n kc)"
    for col kc n
  proof -
    have "select_columns td (la_keys @ [?fc]) = Inr (kc @ [(?fc, col)])"
      using kc(1) col by (simp add: select_columns_append getitem_Inr_iff)
    moreover have "merge out (kc @ [(?fc, col)]) la_keys = Inr (out @ [(?fc, col)])"
      using merge_one_column[OF keys kc(2) out len rows] .
    ultimately show ?thesis by (simp add: body)
  qed
  show ?thesis
    using a b by blast
qed

theorem override_selects_named_variant_witness:
  "(0::real) < 1
   \<and> [''density'' \<mapsto> ''log''] ''density'' = Some ''log''
   \<and> [''density'' \<mapsto> ''bc''] ''density'' = Some ''bc''
   \<and> select_columns aggregated ([''UTLA22CD'', ''UTLA22NM''] @ [''density'']) = Inr aggregated
   \<and> candidates sample_stats aggregated [''UTLA22CD'', ''UTLA22NM''] True ''density'' 1
       = (density_candidates, Inr False)
   \<and> 3 < length run_folders
   \<and> ''density'' @ ''_'' @ ''bc'' \<notin> set (columns density_candidates)
   \<and> snd (transform_feature sample_stats aggregated [''UTLA22CD'', ''UTLA22NM''] run_folders
             True True (Some [''density'' \<mapsto> ''bc'']) (''density'', 1) ([], la_keys_frame))
       = Inl KeyError
   \<and> getitem density_candidates (''density'' @ ''_'' @ ''log'')
       = Inr [Num 0, Num (ln 2 / ln 5), Num 1]
   \<and> snd (transform_feature sample_stats aggregated [''UTLA22CD'', ''UTLA22NM''] run_folders
             True True (Some [''density'' \<mapsto> ''log'']) (''density'', 1) ([], la_keys_frame))
       = Inr (la_keys_frame @ [(''density_log'', [Num 0, Num (ln 2 / ln 5), Num 1])])"
proof -
  let ?keys = "[''UTLA22CD'', ''UTLA22NM'']"
  have h1: "(0::real) < 1" by simp
  have h2: "[''density'' \<mapsto> ''log''] ''density'' = Some ''log''" by simp
  have h2': "[''density'' \<mapsto> ''bc''] ''density'' = Some ''bc''" by simp
  have h3: "select_columns aggregated (?keys @ [''density'']) = Inr aggregated"
    by (simp add: aggregated_def getitem_def matching_def setitem_def columns_def)
  have h4: "candidates sample_stats aggregated ?keys True ''density'' 1
              = (density_candidates, Inr False)"
    by (simp add: candidates_def aggregated_def transform_var_def getitem_def matching_def setitem_def columns_def yeojohnson_def
        boxcox_def sample_stats_def Let_def normalise_var_def columns_def min_max_scaler_def
        get_best_gaussian_transformation_def max_by_value_def exact_yeojohnson_transform_def exact_power_def exact_boxcox_def
        density_candidates_def)
  have h5: "3 < length run_folders" by (simp add: run_folders_def)
  then have h5': "True \<longrightarrow> 3 < length run_folders" by simp
  have h6: "''density'' @ ''_'' @ ''bc'' \<notin> set (columns density_candidates)"
    by (simp add: density_candidates_def columns_def)
  have h7: "getitem density_candidates (''density'' @ ''_'' @ ''log'')
              = Inr [Num 0, Num (ln 2 / ln 5), Num 1]"
    by (simp add: density_candidates_def getitem_def matching_def setitem_def columns_def)
  have a: "snd (transform_feature sample_stats aggregated ?keys run_folders
             True True (Some [''density'' \<mapsto> ''bc'']) (''density'', 1) ([], la_keys_frame))
       = Inl KeyError"
    using override_selects_named_variant
        [where weight = 1 and ct = "[''density'' \<mapsto> ''bc'']" and feature = "''density''"
          and code = "''bc''" and df_all = aggregated and la_keys = ?keys and df_var = aggregated
          and st = sample_stats and normalise = True and td = density_candidates and g = False
          and report = True and output_folders = run_folders and fs = "[]" and out = la_keys_frame,
          OF h1 h2' h3 h4 h5', THEN conjunct1]
      h6 by simp
  have pre: "getitem density_candidates (''density'' @ ''_'' @ ''log'')
                 = Inr [Num 0, Num (ln 2 / ln 5), Num 1]
             \<and> select_columns density_candidates ?keys = Inr la_keys_frame
             \<and> select_columns la_keys_frame ?keys = Inr la_keys_frame
             \<and> ?keys \<noteq> [] \<and> distinct ?keys \<and> distinct (columns la_keys_frame)
             \<and> ''density'' @ ''_'' @ ''log'' \<notin> set (columns la_keys_frame)
             \<and> ''density'' @ ''_'' @ ''log'' \<notin> set ?keys
             \<and> list_all (\<lambda>(c, s). length s = 3) la_keys_frame
             \<and> list_all (\<lambda>(c, s). length s = 3) la_keys_frame
             \<and> length [Num 0, Num (ln 2 / ln 5), Num 1] = 3
             \<and> distinct (key_rows 3 la_keys_frame)"
    by (simp add: density_candidates_def la_keys_frame_def getitem_def matching_def setitem_def columns_def columns_def key_rows_def
        upt_rec)
  have b: "snd (transform_feature sample_stats aggregated ?keys run_folders
             True True (Some [''density'' \<mapsto> ''log'']) (''density'', 1) ([], la_keys_frame))
       = Inr (la_keys_frame @ [(''density_log'', [Num 0, Num (ln 2 / ln 5), Num 1])])"
    using override_selects_named_variant
        [where weight = 1 and ct = "[''density'' \<mapsto> ''log'']" and feature = "''density''"
          and code = "''log''" and df_all = aggregated and la_keys = ?keys and df_var = aggregated
          and st = sample_stats and normalise = True and td = density_candidates and g = False
          and report = True and output_folders = run_folders and fs = "[]" and out = la_keys_frame,
          OF h1 h2 h3 h4 h5', THEN conjunct2, rule_format, OF pre]
    by simp
  from h1 h2 h2' h3 h4 h5 h6 a h7 b show ?thesis by (intro conjI)
qed

subsection \<open>Override with the code of no transformation\<close>

lemma set_columns_setitem:
  "set (columns (setitem df c v)) = insert c (set (columns df))"
  by (auto simp: columns_setitem)

lemma columns_transform_var:
  "set (columns (fst (transform_var st df feature))) \<subseteq> set (columns df) \<union> variant_names feature"
  by (auto simp: transform_var_def Let_def set_columns_setitem variant_names_def
      split: sum.splits option.splits)

lemma columns_normalise_columns:
  "columns (fst (normalise_columns st weight key_columns cs df)) = columns df"
proof (induction cs arbitrary: df)
  case Nil
  then show ?case by simp
next
  case (Cons column cs)
  show ?case
  proof (cases "column \<in> set key_columns")
    case True
    then show ?thesis using Cons.IH by simp
  next
    case False
    show ?thesis
    proof (cases "getitem df column")
      case (Inl e)
      with False show ?thesis by simp
    next
      case col: (Inr col)
      show ?thesis
      proof (cases "min_max_scaler st weight col")
        case (Inl e)
        with False col show ?thesis by simp
      next
        case (Inr scaled)
        have "columns (setitem df column scaled) = columns df"
          using getitem_columns[OF col] by (simp add: columns_setitem)
        with False col Inr Cons.IH[of "setitem df column scaled"] show ?thesis by simp
      qed
    qed
  qed
qed

lemma columns_normalise_var:
  "columns (fst (normalise_var st df weight key_columns)) = columns df"
  by (simp add: normalise_var_def columns_normalise_columns)

lemma columns_get_best:
  "set (columns (fst (get_best_gaussian_transformation st df feature key_columns)))
     \<subseteq> set (columns df) \<union> variant_names feature"
  by (auto simp: get_best_gaussian_transformation_def set_columns_setitem variant_names_def
      split: sum.splits)

lemma columns_candidates:
  assumes "candidates st df_var la_keys normalise feature weight = (td, r)"
  shows "set (columns td) \<subseteq> set (columns df_var) \<union> variant_names feature"
proof -
  obtain t1 r1 where t1: "transform_var st df_var feature = (t1, r1)" by (cases "transform_var st df_var feature")
  have c1: "set (columns t1) \<subseteq> set (columns df_var) \<union> variant_names feature"
    using columns_transform_var[of st df_var feature] t1 by simp
  show ?thesis
  proof (cases r1)
    case (Inl e)
    with assms t1 c1 show ?thesis by (simp add: candidates_def)
  next
    case g: (Inr g)
    obtain t2 r2 where t2: "(if normalise then normalise_var st t1 weight la_keys else (t1, Inr ())) = (t2, r2)"
      by (cases "if normalise then normalise_var st t1 weight la_keys else (t1, Inr ())")
    have c2: "columns t2 = columns t1"
      using t2 columns_normalise_var[of st t1 weight la_keys] by (auto split: if_splits)
    show ?thesis
    proof (cases r2)
      case (Inl e)
      with assms t1 g t2 c1 c2 show ?thesis by (simp add: candidates_def)
    next
      case u: (Inr u)
      obtain t3 r3 where t3: "get_best_gaussian_transformation st t2 feature la_keys = (t3, r3)"
        by (cases "get_best_gaussian_transformation st t2 feature la_keys")
      have c3: "set (columns t3) \<subseteq> set (columns t2) \<union> variant_names feature"
        using columns_get_best[of st t2 feature la_keys] t3 by simp
      from assms t1 g t2 u t3 have "td = t3"
        by (cases r3) (simp_all add: candidates_def)
      with c1 c2 c3 show ?thesis by auto
    qed
  qed
qed

lemma identity_name_not_variant:
  "feature @ ''_'' \<notin> variant_names feature" and "feature @ ''_'' \<noteq> feature"
  by (auto simp: variant_names_def)

lemma merge_duplicate_right:
  "\<not> distinct (columns right) \<Longrightarrow> \<exists>e. merge left right on = Inl e"
  by (auto simp: merge_def split: sum.splits)

lemma transform_feature_identity_override:
  assumes w: "0 < weight" and ct: "ct feature = Some []"
  shows "\<exists>e. snd (transform_feature st df_all la_keys output_folders report normalise (Some ct)
                  (feature, weight) (fs, out)) = Inl e"
proof (cases "select_columns df_all (la_keys @ [feature])")
  case (Inl e)
  then show ?thesis by (simp add: transform_feature_def)
next
  case sel: (Inr df_var)
  have cv: "set (columns df_var) = set (la_keys @ [feature])"
    using select_columns_names_set[OF sel] .
  obtain td r where cand: "candidates st df_var la_keys normalise feature weight = (td, r)"
    by (cases "candidates st df_var la_keys normalise feature weight")
  show ?thesis
  proof (cases r)
    case (Inl e)
    with sel w cand show ?thesis by (simp add: transform_feature_def)
  next
    case g: (Inr g)
    define rp where "rp = (if report
                  then (case folder output_folders 3 of
                          Inl e \<Rightarrow> Inl e
                        | Inr OUT_TRANS \<Rightarrow> Inr (transformation_report fs OUT_TRANS feature))
                  else Inr fs)"
    show ?thesis
    proof (cases rp)
      case (Inl e)
      with sel w cand g show ?thesis by (simp add: transform_feature_def rp_def)
    next
      case fs1: (Inr fs1)
      have name: "column_to_use (Some ct) feature = feature @ ''_''"
        using ct by (simp add: column_to_use_def)
      show ?thesis
      proof (cases "select_columns td (la_keys @ [feature @ ''_''])")
        case (Inl e)
        with sel w cand g fs1 name show ?thesis by (simp add: transform_feature_def rp_def)
      next
        case ch: (Inr chosen)
        have "matching td (feature @ ''_'') \<noteq> []"
          using ch by (auto simp: select_columns_append split: sum.splits list.splits)
        with matching_missing[of "feature @ ''_''" td]
        have "feature @ ''_'' \<in> set (columns td)" by auto
        with columns_candidates[OF cand] cv identity_name_not_variant[of feature]
        have "feature @ ''_'' \<in> set la_keys" by auto
        then have "\<not> distinct (la_keys @ [feature @ ''_''])" by simp
        with select_columns_distinct[OF ch] have "\<not> distinct (columns chosen)" by blast
        from merge_duplicate_right[OF this, of out la_keys]
        obtain e where "merge out chosen la_keys = Inl e" by blast
        with sel w cand g fs1 name ch show ?thesis by (simp add: transform_feature_def rp_def)
      qed
    qed
  qed
qed

lemma transform_features_identity_override:
  assumes "(feature, weight) \<in> set features" and "0 < weight" and "ct feature = Some []"
  shows "\<exists>e. snd (transform_features st df_all la_keys output_folders report normalise (Some ct)
                  features (fs, out)) = Inl e"
  using assms(1)
proof (induction features arbitrary: fs out)
  case Nil
  then show ?case by simp
next
  case (Cons fw features)
  obtain fs1 r where body: "transform_feature st df_all la_keys output_folders report normalise
      (Some ct) fw (fs, out) = (fs1, r)"
    by (cases "transform_feature st df_all la_keys output_folders report normalise
      (Some ct) fw (fs, out)")
  show ?case
  proof (cases r)
    case (Inl e)
    with body show ?thesis by simp
  next
    case (Inr out1)
    have "fw \<noteq> (feature, weight)"
    proof
      assume "fw = (feature, weight)"
      with transform_feature_identity_override[where ct = ct and feature = feature
          and weight = weight and st = st and df_all = df_all and la_keys = la_keys
          and output_folders = output_folders and report = report and normalise = normalise
          and fs = fs and out = out, OF assms(2,3)] body Inr
      show False by simp
    qed
    with Cons.prems have "(feature, weight) \<in> set features" by simp
    from Cons.IH[OF this, of fs1 out1] body Inr show ?thesis by simp
  qed
qed

text \<open>
  C10. When a feature with weight \<open>> 0\<close> is given the override code \<open>''\<close>, documented as
  "No Transformation", \<^verbatim>\<open>transform_data\<close> raises, whatever the table, the keys and the other
  features are: the column it looks for is \<open>feature_\<close>, and the columns of the candidates are
  the keys, \<open>feature\<close> and \<open>feature\<close> with one of the suffixes \<open>_yj\<close>, \<open>_sqrr\<close>, \<open>_log\<close>,
  \<open>_squared\<close>, \<open>_bc\<close>, \<open>_recip_sqrr\<close>, \<open>_recip\<close>, \<open>_best\<close>. (Were \<open>feature_\<close> the name of a
  key, the selection would hold that key twice and the join would raise.)
\<close>

theorem identity_override_always_raises:
  assumes "(feature, weight) \<in> set features" and "0 < weight" and "ct feature = Some []"
  shows "\<exists>e. snd (transform_data st fs df_all la_keys output_folders features report normalise
                  (Some ct)) = Inl e"
proof (cases "select_columns df_all la_keys")
  case (Inl e)
  then show ?thesis by (simp add: transform_data_def)
next
  case (Inr out)
  from transform_features_identity_override[where ct = ct and feature = feature
      and weight = weight and features = features and st = st and df_all = df_all
      and la_keys = la_keys and output_folders = output_folders and report = report
      and normalise = normalise and fs = fs and out = out, OF assms]
  obtain e where "snd (transform_features st df_all la_keys output_folders report normalise
      (Some ct) features (fs, out)) = Inl e" by blast
  with Inr show ?thesis
    by (auto simp: transform_data_def split: prod.splits sum.splits)
qed

theorem identity_override_always_raises_witness:
  "(''density'', 1) \<in> set [(''density'', 1 :: real)]
   \<and> (0::real) < 1
   \<and> [''density'' \<mapsto> []] ''density'' = Some ([] :: string)
   \<and> (\<exists>e. snd (transform_data sample_stats [] aggregated [''UTLA22CD'', ''UTLA22NM''] run_folders
                [(''density'', 1)] True True (Some [''density'' \<mapsto> []])) = Inl e)"
proof -
  have h1: "(''density'', 1) \<in> set [(''density'', 1 :: real)]" by simp
  have h2: "(0::real) < 1" by simp
  have h4: "[''density'' \<mapsto> []] ''density'' = Some ([] :: string)" by simp
  from h1 h2 h4
    identity_override_always_raises
      [where feature = "''density''" and weight = 1 and features = "[(''density'', 1)]"
        and ct = "[''density'' \<mapsto> []]"
        and st = sample_stats and fs = "[]" and df_all = aggregated
        and la_keys = "[''UTLA22CD'', ''UTLA22NM'']" and output_folders = run_folders
        and report = True and normalise = True, OF h1 h2 h4]
  show ?thesis by (intro conjI)
qed


text \<open>
  C6 on the documented code for no transformation. The docstring of \<^verbatim>\<open>transform_data\<close>
  lists \<open>''\<close> as the override code of the untransformed variant. With that code for the
  feature \<open>density\<close> the assembler looks up the column \<open>density_\<close> and raises KeyError, after
  the report figures of the feature have been saved; the untransformed column \<open>density\<close>
  is among the candidates.
\<close>

theorem identity_override_raises_key_error:
  "transform_data sample_stats [] aggregated [''UTLA22CD'', ''UTLA22NM''] run_folders
     [(''density'', 1)] True True (Some [''density'' \<mapsto> []])
   = ([((''reports/transformations'', ''density''), Figure),
       ((''runs/a1/transformations'', ''density''), Figure)], Inl KeyError)"
  by (simp add: transform_data_def transform_feature_def candidates_def aggregated_def
      transform_var_def getitem_def matching_def setitem_def columns_def yeojohnson_def boxcox_def sample_stats_def Let_def
      normalise_var_def columns_def min_max_scaler_def get_best_gaussian_transformation_def
      max_by_value_def exact_yeojohnson_transform_def exact_power_def exact_boxcox_def column_to_use_def folder_def run_folders_def
      transformation_report_def savefig_def report_folder_def transformations_folder_def)

subsection \<open>Files written when a run fails\<close>









end
